theory Spec2Isabelle
  imports Main "HOL-Library.Word" "HOL-Library.AList"
begin

unbundle bit_operations_syntax

section \<open>The SQLite binding of src/sqlite\_binding.cpp\<close>

text \<open>
  The binding sits between a host (its \<open>String\<close>, \<open>Variant\<close>, \<open>Array\<close> and
  \<open>Dictionary\<close> types, its path resolution and its error log) and the database engine
  (the \<open>sqlite3_*\<close> functions). Neither is part of the repository, so both are
  parameters of the model: a record of host functions and a record of engine functions
  over an engine state \<open>'e\<close>. The binding's own code is translated function by
  function; every engine call it makes is appended to a call log and every message it
  prints to a list of diagnostics, so that statements about which calls were made, and
  in which order, can be written down.
\<close>

subsection \<open>Host values\<close>

text \<open>
  A \<open>double\<close> is carried as its 64-bit pattern: the binding only passes doubles
  through. The host's \<open>Variant\<close> stores an \<open>INT\<close> (here \<open>INT'\<close>) as a 64-bit integer
  (\<open>int64_t\<close>), which is why the source narrows it with \<open>static_cast<int>\<close>.
  \<open>OTHER t\<close> stands for a value of any other \<open>Variant::Type\<close>, \<open>t\<close> being its
  type number. The host's \<open>String\<close> is the type parameter \<open>'s\<close>.
\<close>

type_synonym double = "64 word"
type_synonym PackedByteArray = "8 word list"

datatype 's Variant =
    NIL
  | INT' "64 word"
  | FLOAT double
  | STRING 's
  | PACKED_BYTE_ARRAY PackedByteArray
  | OTHER nat

text \<open>
  A \<open>Dictionary\<close> keeps its keys in insertion order; \<open>result[name] = v\<close> overwrites the
  value of a key that is present (in place) and appends a new key otherwise, which is
  \<open>AList.update\<close>.
\<close>

type_synonym 's Dictionary = "('s \<times> 's Variant) list"

record 's host =
  strip_edges :: "'s \<Rightarrow> 's"
  String_length :: "'s \<Rightarrow> nat"
  globalize_path :: "'s \<Rightarrow> 's"
  utf8 :: "'s \<Rightarrow> string"
  String_of :: "string \<Rightarrow> 's"

subsection \<open>The engine\<close>

type_synonym sqlite3 = nat
type_synonym sqlite3_stmt = nat

definition SQLITE_OK :: int where "SQLITE_OK = 0"
definition SQLITE_ROW :: int where "SQLITE_ROW = 100"
definition SQLITE_DONE :: int where "SQLITE_DONE = 101"
definition SQLITE_INTEGER :: int where "SQLITE_INTEGER = 1"
definition SQLITE_FLOAT :: int where "SQLITE_FLOAT = 2"
definition SQLITE_TEXT :: int where "SQLITE_TEXT = 3"
definition SQLITE_BLOB :: int where "SQLITE_BLOB = 4"
definition SQLITE_NULL :: int where "SQLITE_NULL = 5"
definition SQLITE_OPEN_READWRITE :: int where "SQLITE_OPEN_READWRITE = 2"
definition SQLITE_OPEN_CREATE :: int where "SQLITE_OPEN_CREATE = 4"

text \<open>
  The five \<open>sqlite3_bind_*\<close> functions the binding calls, with the native value each
  one is given: the bytes of the blob, the double, the 32-bit \<open>int\<close>, nothing, and the
  C string (passed with length \<open>-1\<close>, so the engine reads it up to its first NUL).
\<close>

datatype parameter =
    bind_blob PackedByteArray
  | bind_double double
  | bind_int "32 word"
  | bind_null
  | bind_text string

text \<open>
  An engine is a deterministic machine over its state \<open>'e\<close>. A null pointer is
  \<open>None\<close>. \<open>sqlite3_open_v2\<close> returns its result code and what it wrote to the
  handle pointer it was given; \<open>sqlite3_prepare_v2\<close> likewise. Reading a column does
  not change the engine's state.
\<close>

record 'e engine =
  sqlite3_open_v2 :: "string \<Rightarrow> int \<Rightarrow> 'e \<Rightarrow> int \<times> sqlite3 option \<times> 'e"
  sqlite3_close :: "sqlite3 \<Rightarrow> 'e \<Rightarrow> int \<times> 'e"
  sqlite3_prepare_v2 :: "sqlite3 \<Rightarrow> string \<Rightarrow> 'e \<Rightarrow> int \<times> sqlite3_stmt option \<times> 'e"
  sqlite3_bind_parameter_count :: "sqlite3_stmt \<Rightarrow> 'e \<Rightarrow> int"
  sqlite3_bind :: "sqlite3_stmt \<Rightarrow> int \<Rightarrow> parameter \<Rightarrow> 'e \<Rightarrow> int \<times> 'e"
  sqlite3_step :: "sqlite3_stmt \<Rightarrow> 'e \<Rightarrow> int \<times> 'e"
  sqlite3_finalize :: "sqlite3_stmt \<Rightarrow> 'e \<Rightarrow> 'e"
  sqlite3_column_count :: "sqlite3_stmt \<Rightarrow> 'e \<Rightarrow> int"
  sqlite3_column_name :: "sqlite3_stmt \<Rightarrow> int \<Rightarrow> 'e \<Rightarrow> string"
  sqlite3_column_type :: "sqlite3_stmt \<Rightarrow> int \<Rightarrow> 'e \<Rightarrow> int"
  sqlite3_column_int :: "sqlite3_stmt \<Rightarrow> int \<Rightarrow> 'e \<Rightarrow> 32 word"
  sqlite3_column_double :: "sqlite3_stmt \<Rightarrow> int \<Rightarrow> 'e \<Rightarrow> double"
  sqlite3_column_text :: "sqlite3_stmt \<Rightarrow> int \<Rightarrow> 'e \<Rightarrow> string"
  sqlite3_column_bytes :: "sqlite3_stmt \<Rightarrow> int \<Rightarrow> 'e \<Rightarrow> int"
  sqlite3_column_blob :: "sqlite3_stmt \<Rightarrow> int \<Rightarrow> 'e \<Rightarrow> PackedByteArray"

text \<open>The log of engine calls; binds, steps, opens and closes with the code returned.\<close>

datatype call =
    Open_v2 string int int
  | Close sqlite3 int
  | Prepare_v2 sqlite3 string int
  | Bind_parameter_count sqlite3_stmt
  | Bind sqlite3_stmt int parameter int
  | Step sqlite3_stmt int
  | Finalize sqlite3_stmt
  | Column_count sqlite3_stmt
  | Column_name sqlite3_stmt int
  | Column_type sqlite3_stmt int
  | Column_int sqlite3_stmt int
  | Column_double sqlite3_stmt int
  | Column_text sqlite3_stmt int
  | Column_bytes sqlite3_stmt int
  | Column_blob sqlite3_stmt int

text \<open>
  The messages of the source, one constructor for each \<open>print_error\<close> and
  \<open>ERR_FAIL_COND_V\<close>, with the numbers they print.
\<close>

datatype diagnostic =
    Condition_db_is_null
  | Condition_result_not_OK
  | Wrong_count int int
  | Unsupported_type nat
  | Failed_to_bind int int
  | Unsupported_column_type int
  | Failed_to_open
  | Not_opened
  | Failed_to_close
  | Unsupported_step_result int

text \<open>
  The state a call of the binding works on: the object's field \<open>db_ctx\<close>, the engine,
  the call log and the diagnostics printed so far.
\<close>

record 'e state =
  db_ctx :: "sqlite3 option"
  eng :: 'e
  calls :: "call list"
  printed :: "diagnostic list"

definition called :: "call \<Rightarrow> 'e state \<Rightarrow> 'e state" where
  "called c st = st\<lparr>calls := calls st @ [c]\<rparr>"

definition print_error :: "diagnostic \<Rightarrow> 'e state \<Rightarrow> 'e state" where
  "print_error d st = st\<lparr>printed := printed st @ [d]\<rparr>"

subsection \<open>prepare\<close>

definition prepare ::
  "'e engine \<Rightarrow> sqlite3 option \<Rightarrow> string \<Rightarrow> 'e state \<Rightarrow> sqlite3_stmt option \<times> 'e state" where
  "prepare E db query st =
     (case db of
        None \<Rightarrow> (None, print_error Condition_db_is_null st)
      | Some d \<Rightarrow>
          (let (result, stmt, e') = sqlite3_prepare_v2 E d query (eng st);
               st1 = called (Prepare_v2 d query result) (st\<lparr>eng := e'\<rparr>)
           in if result \<noteq> SQLITE_OK then (None, print_error Condition_result_not_OK st1)
              else (stmt, st1)))"

subsection \<open>bind\_args\<close>

text \<open>
  One engine bind at position \<open>i + 1\<close> and the check of its result (the tail of the
  loop body).
\<close>

definition bind_at ::
  "'e engine \<Rightarrow> sqlite3_stmt \<Rightarrow> int \<Rightarrow> parameter \<Rightarrow> 'e state \<Rightarrow> bool \<times> 'e state" where
  "bind_at E stmt i p st =
     (let (result, e') = sqlite3_bind E stmt (i + 1) p (eng st);
          st1 = called (Bind stmt (i + 1) p result) (st\<lparr>eng := e'\<rparr>)
      in if result \<noteq> SQLITE_OK then (False, print_error (Failed_to_bind (i + 1) result) st1)
         else (True, st1))"

text \<open>
  The loop body: the switch on the argument's type. \<open>static_cast<int>\<close> keeps the low
  32 bits of the 64-bit host integer. \<open>False\<close> is \<open>return false\<close>.
\<close>

definition bind_arg ::
  "'s host \<Rightarrow> 'e engine \<Rightarrow> sqlite3_stmt \<Rightarrow> int \<Rightarrow> 's Variant \<Rightarrow> 'e state \<Rightarrow> bool \<times> 'e state" where
  "bind_arg H E stmt i arg st =
     (case arg of
        PACKED_BYTE_ARRAY blob \<Rightarrow> bind_at E stmt i (bind_blob blob) st
      | FLOAT d \<Rightarrow> bind_at E stmt i (bind_double d) st
      | INT' v \<Rightarrow> bind_at E stmt i (bind_int (ucast v)) st
      | NIL \<Rightarrow> bind_at E stmt i bind_null st
      | STRING s \<Rightarrow> bind_at E stmt i (bind_text (utf8 H s)) st
      | OTHER t \<Rightarrow> (False, print_error (Unsupported_type t) st))"

text \<open>
  The loop \<open>for (int i = 0; i < param_count; ++i)\<close>, from index \<open>i\<close> on. It is only
  entered when \<open>param_count\<close> is the length of \<open>args\<close>, so \<open>args[i]\<close> is in range.
\<close>

function bind_args_from ::
  "'s host \<Rightarrow> 'e engine \<Rightarrow> sqlite3_stmt \<Rightarrow> int \<Rightarrow> 's Variant list \<Rightarrow> int \<Rightarrow> 'e state
     \<Rightarrow> bool \<times> 'e state" where
  "bind_args_from H E stmt param_count args i st =
     (if i < param_count then
        (let (ok, st1) = bind_arg H E stmt i (args ! nat i) st
         in if ok then bind_args_from H E stmt param_count args (i + 1) st1
            else (False, st1))
      else (True, st))"
  by pat_completeness auto
termination
  by (relation "measure (\<lambda>(H, E, stmt, param_count, args, i, st). nat (param_count - i))") auto

definition bind_args ::
  "'s host \<Rightarrow> 'e engine \<Rightarrow> sqlite3_stmt \<Rightarrow> 's Variant list \<Rightarrow> 'e state \<Rightarrow> bool \<times> 'e state" where
  "bind_args H E stmt args st =
     (let param_count = sqlite3_bind_parameter_count E stmt (eng st);
          st1 = called (Bind_parameter_count stmt) st
      in if param_count \<noteq> int (length args)
         then (False, print_error (Wrong_count param_count (int (length args))) st1)
         else bind_args_from H E stmt param_count args 0 st1)"

subsection \<open>fetch\_row\<close>

text \<open>
  The loop body for column \<open>i\<close>: the switch on the column's reported type. \<open>None\<close> is
  the \<open>return {}\<close> of the default branch. The key of \<open>result[name]\<close> is the host
  \<open>String\<close> made from the C string \<open>name\<close>; an \<open>int\<close> is stored in a \<open>Variant\<close> as a
  64-bit integer of the same value; the blob is the first \<open>size\<close> bytes of the engine's
  buffer (which holds at least that many).
\<close>

definition fetch_column ::
  "'s host \<Rightarrow> 'e engine \<Rightarrow> sqlite3_stmt \<Rightarrow> int \<Rightarrow> 's Dictionary \<Rightarrow> 'e state
     \<Rightarrow> 's Dictionary option \<times> 'e state" where
  "fetch_column H E stmt i result st =
     (let name = sqlite3_column_name E stmt i (eng st);
          type = sqlite3_column_type E stmt i (eng st);
          st1 = called (Column_type stmt i) (called (Column_name stmt i) st)
      in if type = SQLITE_INTEGER then
           (Some (AList.update (String_of H name)
                    (INT' (scast (sqlite3_column_int E stmt i (eng st)))) result),
            called (Column_int stmt i) st1)
         else if type = SQLITE_FLOAT then
           (Some (AList.update (String_of H name)
                    (FLOAT (sqlite3_column_double E stmt i (eng st))) result),
            called (Column_double stmt i) st1)
         else if type = SQLITE_TEXT then
           (Some (AList.update (String_of H name)
                    (STRING (String_of H (sqlite3_column_text E stmt i (eng st)))) result),
            called (Column_text stmt i) st1)
         else if type = SQLITE_BLOB then
           (let size = sqlite3_column_bytes E stmt i (eng st);
                arr = take (nat size) (sqlite3_column_blob E stmt i (eng st))
            in (Some (AList.update (String_of H name) (PACKED_BYTE_ARRAY arr) result),
                called (Column_blob stmt i) (called (Column_bytes stmt i) st1)))
         else if type = SQLITE_NULL then (Some result, st1)
         else (None, print_error (Unsupported_column_type type) st1))"

text \<open>The loop \<open>for (int i = 0; i < column_count; ++i)\<close>, from index \<open>i\<close> on.\<close>

function fetch_row_from ::
  "'s host \<Rightarrow> 'e engine \<Rightarrow> sqlite3_stmt \<Rightarrow> int \<Rightarrow> int \<Rightarrow> 's Dictionary \<Rightarrow> 'e state
     \<Rightarrow> 's Dictionary \<times> 'e state" where
  "fetch_row_from H E stmt column_count i result st =
     (if i < column_count then
        (let (r, st1) = fetch_column H E stmt i result st
         in case r of
              None \<Rightarrow> ([], st1)
            | Some result' \<Rightarrow> fetch_row_from H E stmt column_count (i + 1) result' st1)
      else (result, st))"
  by pat_completeness auto
termination
  by (relation "measure (\<lambda>(H, E, stmt, column_count, i, result, st). nat (column_count - i))")
    auto

definition fetch_row ::
  "'s host \<Rightarrow> 'e engine \<Rightarrow> sqlite3_stmt \<Rightarrow> 'e state \<Rightarrow> 's Dictionary \<times> 'e state" where
  "fetch_row H E stmt st =
     (let column_count = sqlite3_column_count E stmt (eng st);
          st1 = called (Column_count stmt) st
      in fetch_row_from H E stmt column_count 0 [] st1)"

subsection \<open>open and close\<close>

definition "open" :: "'s host \<Rightarrow> 'e engine \<Rightarrow> 's \<Rightarrow> 'e state \<Rightarrow> bool \<times> 'e state" where
  "open H E path st =
     (if String_length H (strip_edges H path) = 0 then (False, st)
      else
        (let real_path = globalize_path H (strip_edges H path);
             flags = SQLITE_OPEN_READWRITE + SQLITE_OPEN_CREATE;
             (result, db, e') = sqlite3_open_v2 E (utf8 H real_path) flags (eng st);
             st1 = called (Open_v2 (utf8 H real_path) flags result) (st\<lparr>eng := e', db_ctx := db\<rparr>)
         in if result \<noteq> SQLITE_OK then (False, print_error Failed_to_open st1)
            else (True, st1)))"

definition close :: "'e engine \<Rightarrow> 'e state \<Rightarrow> bool \<times> 'e state" where
  "close E st =
     (case db_ctx st of
        None \<Rightarrow> (False, print_error Not_opened st)
      | Some d \<Rightarrow>
          (let (result, e') = sqlite3_close E d (eng st);
               st1 = called (Close d result) (st\<lparr>eng := e'\<rparr>)
           in if result \<noteq> SQLITE_OK then (False, print_error Failed_to_close st1)
              else (True, st1\<lparr>db_ctx := None\<rparr>)))"

subsection \<open>query and query\_with\_args\<close>

definition finalize :: "'e engine \<Rightarrow> sqlite3_stmt \<Rightarrow> 'e state \<Rightarrow> 'e state" where
  "finalize E stmt st = called (Finalize stmt) (st\<lparr>eng := sqlite3_finalize E stmt (eng st)\<rparr>)"

definition step :: "'e engine \<Rightarrow> sqlite3_stmt \<Rightarrow> 'e state \<Rightarrow> int \<times> 'e state" where
  "step E stmt st =
     (let (result, e') = sqlite3_step E stmt (eng st)
      in (result, called (Step stmt result) (st\<lparr>eng := e'\<rparr>)))"

definition query_with_args ::
  "'s host \<Rightarrow> 'e engine \<Rightarrow> 's \<Rightarrow> 's Variant list \<Rightarrow> 'e state \<Rightarrow> bool \<times> 'e state" where
  "query_with_args H E query arguments st =
     (let (stmt, st1) = prepare E (db_ctx st) (utf8 H query) st
      in case stmt of
           None \<Rightarrow> (False, st1)
         | Some s \<Rightarrow>
             (let (ok, st2) = bind_args H E s arguments st1
              in if \<not> ok then (False, finalize E s st2)
                 else (let (result, st3) = step E s st2
                       in (True, finalize E s st3))))"

definition query :: "'s host \<Rightarrow> 'e engine \<Rightarrow> 's \<Rightarrow> 'e state \<Rightarrow> bool \<times> 'e state" where
  "query H E q st = query_with_args H E q [] st"

subsection \<open>query\_fetch\_rows and query\_fetch\_rows\_with\_args\<close>

text \<open>
  How the loop \<open>while (!done)\<close> is left: through \<open>done = true\<close>, with the array built so
  far, or through the \<open>return {}\<close> of the default branch.
\<close>

datatype 's loop_exit = Loop_done "'s Dictionary list" | Returned_empty

text \<open>
  The engine may answer \<open>SQLITE_ROW\<close> for ever, and then the loop does not end: the
  result \<open>None\<close>.
\<close>

partial_function (option) fetch_rows_loop ::
  "'s host \<Rightarrow> 'e engine \<Rightarrow> sqlite3_stmt \<Rightarrow> 's Dictionary list \<Rightarrow> 'e state
     \<Rightarrow> ('s loop_exit \<times> 'e state) option" where
  "fetch_rows_loop H E stmt array st =
     (let (result, st1) = step E stmt st
      in if result = SQLITE_ROW then
           (let (row, st2) = fetch_row H E stmt st1
            in fetch_rows_loop H E stmt (array @ [row]) st2)
         else if result = SQLITE_DONE then Some (Loop_done array, st1)
         else Some (Returned_empty, print_error (Unsupported_step_result result) st1))"

definition query_fetch_rows_with_args ::
  "'s host \<Rightarrow> 'e engine \<Rightarrow> 's \<Rightarrow> 's Variant list \<Rightarrow> 'e state
     \<Rightarrow> ('s Dictionary list \<times> 'e state) option" where
  "query_fetch_rows_with_args H E q arguments st =
     (let (stmt, st1) = prepare E (db_ctx st) (utf8 H q) st
      in case stmt of
           None \<Rightarrow> Some ([], st1)
         | Some s \<Rightarrow>
             (let (ok, st2) = bind_args H E s arguments st1
              in if \<not> ok then Some ([], finalize E s st2)
                 else (case fetch_rows_loop H E s [] st2 of
                         None \<Rightarrow> None
                       | Some (Returned_empty, st3) \<Rightarrow> Some ([], st3)
                       | Some (Loop_done array, st3) \<Rightarrow> Some (array, finalize E s st3))))"

definition query_fetch_rows ::
  "'s host \<Rightarrow> 'e engine \<Rightarrow> 's \<Rightarrow> 'e state \<Rightarrow> ('s Dictionary list \<times> 'e state) option" where
  "query_fetch_rows H E q st = query_fetch_rows_with_args H E q [] st"

section \<open>A simulated engine\<close>

text \<open>
  An engine to run the binding against: it knows one statement and answers as its
  program says. A stored value has one of the engine's five storage classes;
  \<open>C_unknown t\<close> is a column that reports the type \<open>t\<close>, outside the five.
\<close>

datatype cell =
    C_integer "64 word"
  | C_real double
  | C_text string
  | C_blob PackedByteArray
  | C_null
  | C_unknown int

text \<open>
  What the engine stores for a bind, as its documentation says: \<open>sqlite3_bind_int\<close>
  stores the 64-bit integer of the same value; \<open>sqlite3_bind_double\<close> stores the double,
  and NULL for a NaN; \<open>sqlite3_bind_text\<close> with length \<open>-1\<close> stores the bytes before
  the first NUL; \<open>sqlite3_bind_blob\<close> stores the bytes, and NULL when it is handed a
  null pointer, which is what an empty \<open>PackedByteArray\<close> of the host hands it.
\<close>

definition is_nan :: "double \<Rightarrow> bool" where
  "is_nan d \<longleftrightarrow>
     d AND 0x7FF0000000000000 = 0x7FF0000000000000 \<and> d AND 0x000FFFFFFFFFFFFF \<noteq> 0"

definition c_str :: "string \<Rightarrow> string" where
  "c_str bytes = takeWhile (\<lambda>c. c \<noteq> CHR 0x00) bytes"

fun stored :: "parameter \<Rightarrow> cell" where
  "stored (bind_blob b) = (if b = [] then C_null else C_blob b)"
| "stored (bind_double d) = (if is_nan d then C_null else C_real d)"
| "stored (bind_int w) = C_integer (scast w)"
| "stored bind_null = C_null"
| "stored (bind_text t) = C_text (c_str t)"

fun cell_type :: "cell \<Rightarrow> int" where
  "cell_type (C_integer v) = SQLITE_INTEGER"
| "cell_type (C_real d) = SQLITE_FLOAT"
| "cell_type (C_text t) = SQLITE_TEXT"
| "cell_type (C_blob b) = SQLITE_BLOB"
| "cell_type C_null = SQLITE_NULL"
| "cell_type (C_unknown t) = t"

text \<open>
  The column readers on a stored value of the matching class (the only ones the binding
  uses): \<open>sqlite3_column_int\<close> gives the low 32 bits of the stored integer.
\<close>

fun cell_int :: "cell \<Rightarrow> 32 word" where
  "cell_int (C_integer v) = ucast v"
| "cell_int c = 0"

fun cell_double :: "cell \<Rightarrow> double" where
  "cell_double (C_real d) = d"
| "cell_double c = 0"

fun cell_text :: "cell \<Rightarrow> string" where
  "cell_text (C_text t) = t"
| "cell_text c = []"

fun cell_blob :: "cell \<Rightarrow> PackedByteArray" where
  "cell_blob (C_blob b) = b"
| "cell_blob c = []"

text \<open>
  The program: the answers to open, close and prepare, the statement's placeholder
  count, the answer to a bind at each position, the answers of the successive steps
  (\<open>SQLITE_MISUSE\<close>, 21, once the list is used up), and the columns (name and value) of
  the row each step delivers, which may depend on the bound parameters.
\<close>

record program =
  open_result :: "int \<times> sqlite3 option"
  close_result :: int
  prepare_result :: "int \<times> sqlite3_stmt option"
  parameter_count :: int
  bind_result :: "int \<Rightarrow> int"
  step_results :: "int list"
  row_of :: "(int \<Rightarrow> cell) \<Rightarrow> nat \<Rightarrow> (string \<times> cell) list"

text \<open>The simulated engine's state: the parameters bound and the number of steps made.\<close>

record sim_state =
  bound :: "int \<Rightarrow> cell"
  steps :: nat

definition sim_start :: sim_state where
  "sim_start = \<lparr>bound = (\<lambda>i. C_null), steps = 0\<rparr>"

definition columns :: "program \<Rightarrow> sim_state \<Rightarrow> (string \<times> cell) list" where
  "columns P e = row_of P (bound e) (steps e - 1)"

definition column :: "program \<Rightarrow> sim_state \<Rightarrow> int \<Rightarrow> string \<times> cell" where
  "column P e i =
     (if 0 \<le> i \<and> nat i < length (columns P e) then columns P e ! nat i else ([], C_null))"

definition sim :: "program \<Rightarrow> sim_state engine" where
  "sim P =
     \<lparr>sqlite3_open_v2 = (\<lambda>filename flags e. (fst (open_result P), snd (open_result P), e)),
      sqlite3_close = (\<lambda>db e. (close_result P, e)),
      sqlite3_prepare_v2 = (\<lambda>db sql e. (fst (prepare_result P), snd (prepare_result P), e)),
      sqlite3_bind_parameter_count = (\<lambda>stmt e. parameter_count P),
      sqlite3_bind = (\<lambda>stmt i p e.
         (bind_result P i,
          if bind_result P i = SQLITE_OK then e\<lparr>bound := (bound e)(i := stored p)\<rparr> else e)),
      sqlite3_step = (\<lambda>stmt e.
         (if steps e < length (step_results P) then step_results P ! steps e else 21,
          e\<lparr>steps := Suc (steps e)\<rparr>)),
      sqlite3_finalize = (\<lambda>stmt e. e),
      sqlite3_column_count = (\<lambda>stmt e. int (length (columns P e))),
      sqlite3_column_name = (\<lambda>stmt i e. fst (column P e i)),
      sqlite3_column_type = (\<lambda>stmt i e. cell_type (snd (column P e i))),
      sqlite3_column_int = (\<lambda>stmt i e. cell_int (snd (column P e i))),
      sqlite3_column_double = (\<lambda>stmt i e. cell_double (snd (column P e i))),
      sqlite3_column_text = (\<lambda>stmt i e. cell_text (snd (column P e i))),
      sqlite3_column_bytes = (\<lambda>stmt i e. int (length (cell_blob (snd (column P e i))))),
      sqlite3_column_blob = (\<lambda>stmt i e. cell_blob (snd (column P e i)))\<rparr>"

text \<open>
  A host whose strings are byte strings: \<open>strip_edges\<close> drops the characters up to
  the space (code 32) at both ends, as the host's does; the UTF-8 encoding is the
  string itself; and \<open>String(const char*)\<close> reads the C string up to its first NUL.
\<close>

definition plain_host :: "string host" where
  "plain_host =
     \<lparr>strip_edges = (\<lambda>s. rev (dropWhile (\<lambda>c. of_char c \<le> (32 :: nat))
                               (rev (dropWhile (\<lambda>c. of_char c \<le> (32 :: nat)) s)))),
      String_length = length,
      globalize_path = (\<lambda>s. s),
      utf8 = (\<lambda>s. s),
      String_of = (\<lambda>s. takeWhile (\<lambda>c. c \<noteq> CHR 0x00) s)\<rparr>"

text \<open>A connection that is open on handle 1, before any call.\<close>

definition opened :: "sim_state state" where
  "opened = \<lparr>db_ctx = Some 1, eng = sim_start, calls = [], printed = []\<rparr>"

definition closed :: "sim_state state" where
  "closed = \<lparr>db_ctx = None, eng = sim_start, calls = [], printed = []\<rparr>"

section \<open>Notions the properties are stated with\<close>

text \<open>
  The state after the first \<open>n\<close> passes of the loop of \<open>query_fetch_rows_with_args\<close>,
  each of which stepped to a row and fetched it (\<open>None\<close> when one of those steps did
  not answer \<open>SQLITE_ROW\<close>).
\<close>

fun rows_fetched ::
  "'s host \<Rightarrow> 'e engine \<Rightarrow> sqlite3_stmt \<Rightarrow> nat \<Rightarrow> 's Dictionary list \<Rightarrow> 'e state
     \<Rightarrow> ('s Dictionary list \<times> 'e state) option" where
  "rows_fetched H E stmt 0 array st = Some (array, st)"
| "rows_fetched H E stmt (Suc n) array st =
     (let (result, st1) = step E stmt st
      in if result = SQLITE_ROW then
           (let (row, st2) = fetch_row H E stmt st1
            in rows_fetched H E stmt n (array @ [row]) st2)
         else None)"

text \<open>
  The five column types the switch of \<open>fetch_row\<close> has a case for; the column an engine
  call reads, if it reads one; and a call that reads no column beyond \<open>i\<close>.
\<close>

definition supported_type :: "int \<Rightarrow> bool" where
  "supported_type t \<longleftrightarrow>
     t = SQLITE_INTEGER \<or> t = SQLITE_FLOAT \<or> t = SQLITE_TEXT \<or> t = SQLITE_BLOB \<or> t = SQLITE_NULL"

fun column_index :: "call \<Rightarrow> int option" where
  "column_index (Column_name s i) = Some i"
| "column_index (Column_type s i) = Some i"
| "column_index (Column_int s i) = Some i"
| "column_index (Column_double s i) = Some i"
| "column_index (Column_text s i) = Some i"
| "column_index (Column_bytes s i) = Some i"
| "column_index (Column_blob s i) = Some i"
| "column_index c = None"

definition reads_up_to :: "int \<Rightarrow> call \<Rightarrow> bool" where
  "reads_up_to i c = (case column_index c of None \<Rightarrow> True | Some j \<Rightarrow> j \<le> i)"

text \<open>
  The value of column \<open>i\<close> as the specification's decoder gives it (a NULL column has
  none), the entry of the column in the Record (its name and that value), and the
  entries of the columns from \<open>i\<close> on, in column order. \<open>store\<close> is the assignment
  \<open>result[name] = value\<close> for a column that has an entry.
\<close>

definition decoded :: "'s host \<Rightarrow> 'e engine \<Rightarrow> sqlite3_stmt \<Rightarrow> 'e \<Rightarrow> int \<Rightarrow> 's Variant option" where
  "decoded H E stmt e i =
     (let type = sqlite3_column_type E stmt i e
      in if type = SQLITE_INTEGER then Some (INT' (scast (sqlite3_column_int E stmt i e)))
         else if type = SQLITE_FLOAT then Some (FLOAT (sqlite3_column_double E stmt i e))
         else if type = SQLITE_TEXT then Some (STRING (String_of H (sqlite3_column_text E stmt i e)))
         else if type = SQLITE_BLOB then
           Some (PACKED_BYTE_ARRAY (take (nat (sqlite3_column_bytes E stmt i e))
                                      (sqlite3_column_blob E stmt i e)))
         else None)"

definition entry :: "'s host \<Rightarrow> 'e engine \<Rightarrow> sqlite3_stmt \<Rightarrow> 'e \<Rightarrow> int \<Rightarrow> ('s \<times> 's Variant) option" where
  "entry H E stmt e i =
     map_option (Pair (String_of H (sqlite3_column_name E stmt i e))) (decoded H E stmt e i)"

definition entries :: "'s host \<Rightarrow> 'e engine \<Rightarrow> sqlite3_stmt \<Rightarrow> 'e \<Rightarrow> int \<Rightarrow> 's Dictionary" where
  "entries H E stmt e i =
     List.map_filter (entry H E stmt e) [i..sqlite3_column_count E stmt e - 1]"

definition store :: "'s Dictionary \<Rightarrow> ('s \<times> 's Variant) option \<Rightarrow> 's Dictionary" where
  "store result x = (case x of None \<Rightarrow> result | Some (k, v) \<Rightarrow> AList.update k v result)"

text \<open>
  An argument the switch of \<open>bind_args\<close> has no case for; the log entry of a bind, from
  its position, parameter and answer; and what the loop of \<open>bind_args\<close>, run from index
  \<open>i\<close> up to \<open>n\<close> with the result \<open>ok\<close>, asked of the engine: the binds \<open>bs\<close> are at
  the positions \<open>i + 1\<close>, \<open>i + 2\<close>, ... in order, every bind but the last was accepted,
  no position at or after an unsupported argument is bound, and the loop ended either
  with all \<open>n\<close> bound and accepted (\<open>ok\<close>), or at a bind the engine rejected, or at an
  unsupported argument.
\<close>

fun unsupported :: "'s Variant \<Rightarrow> bool" where
  "unsupported (OTHER t) = True"
| "unsupported v = False"

fun bind_call :: "sqlite3_stmt \<Rightarrow> int \<times> parameter \<times> int \<Rightarrow> call" where
  "bind_call s (pos, p, rc) = Bind s pos p rc"

definition attempts ::
  "int \<Rightarrow> int \<Rightarrow> 's Variant list \<Rightarrow> bool \<Rightarrow> (int \<times> parameter \<times> int) list \<Rightarrow> bool" where
  "attempts i n args ok bs \<longleftrightarrow>
     i + int (length bs) \<le> n \<and>
     (\<forall>j<length bs. fst (bs ! j) = i + int j + 1) \<and>
     (\<forall>j. Suc j < length bs \<longrightarrow> snd (snd (bs ! j)) = SQLITE_OK) \<and>
     (\<forall>k. i \<le> k \<and> k < n \<and> unsupported (args ! nat k) \<longrightarrow> i + int (length bs) \<le> k) \<and>
     (if ok then i + int (length bs) = n \<and> (\<forall>j<length bs. snd (snd (bs ! j)) = SQLITE_OK)
      else (bs \<noteq> [] \<and> snd (snd (last bs)) \<noteq> SQLITE_OK) \<or>
           (i + int (length bs) < n \<and> unsupported (args ! nat (i + int (length bs)))))"

text \<open>
  The bind the switch of \<open>bind_args\<close> makes for an argument, if it has a case for its
  type; the state after the first \<open>k\<close> arguments were bound, each accepted by the
  engine (\<open>None\<close> when one of them has no case or was rejected); and the binds of those
  \<open>k\<close> arguments as they stand in the log.
\<close>

fun parameter_of :: "'s host \<Rightarrow> 's Variant \<Rightarrow> parameter option" where
  "parameter_of H (PACKED_BYTE_ARRAY blob) = Some (bind_blob blob)"
| "parameter_of H (FLOAT d) = Some (bind_double d)"
| "parameter_of H (INT' v) = Some (bind_int (ucast v))"
| "parameter_of H NIL = Some bind_null"
| "parameter_of H (STRING x) = Some (bind_text (utf8 H x))"
| "parameter_of H (OTHER t) = None"

fun bound_first ::
  "'s host \<Rightarrow> 'e engine \<Rightarrow> sqlite3_stmt \<Rightarrow> 's Variant list \<Rightarrow> nat \<Rightarrow> 'e state \<Rightarrow> 'e state option" where
  "bound_first H E s args 0 st = Some st"
| "bound_first H E s args (Suc k) st =
     (case bound_first H E s args k st of
        None \<Rightarrow> None
      | Some st' \<Rightarrow>
          (case parameter_of H (args ! k) of
             None \<Rightarrow> None
           | Some p \<Rightarrow>
               (let (rc, e') = sqlite3_bind E s (int k + 1) p (eng st')
                in if rc = SQLITE_OK
                   then Some (called (Bind s (int k + 1) p rc) (st'\<lparr>eng := e'\<rparr>))
                   else None)))"

fun binds_of :: "'s host \<Rightarrow> sqlite3_stmt \<Rightarrow> 's Variant list \<Rightarrow> nat \<Rightarrow> call list" where
  "binds_of H s args 0 = []"
| "binds_of H s args (Suc k) =
     binds_of H s args k @
     (case parameter_of H (args ! k) of
        None \<Rightarrow> []
      | Some p \<Rightarrow> [Bind s (int k + 1) p SQLITE_OK])"

text \<open>
  Both operations fail on a bind that left the state \<open>F\<close>: \<open>bind_args\<close> returns
  \<open>false\<close> with \<open>F\<close>, \<open>query_with_args\<close> returns \<open>false\<close> and
  \<open>query_fetch_rows_with_args\<close> the empty array, both with \<open>F\<close> finalized; \<open>db_ctx\<close>
  is the handle it was; and the engine calls after the prepare are the placeholder
  count, the calls \<open>new\<close> and one finalize, in that order.
\<close>

definition fails_with ::
  "'s host \<Rightarrow> 'e engine \<Rightarrow> 's \<Rightarrow> 's Variant list \<Rightarrow> 'e state \<Rightarrow> sqlite3_stmt \<Rightarrow> 'e state
     \<Rightarrow> 'e state \<Rightarrow> call list \<Rightarrow> bool" where
  "fails_with H E q args st s st1 F new \<longleftrightarrow>
     bind_args H E s args st1 = (False, F) \<and>
     query_with_args H E q args st = (False, finalize E s F) \<and>
     query_fetch_rows_with_args H E q args st = Some ([], finalize E s F) \<and>
     db_ctx st \<noteq> None \<and> db_ctx (finalize E s F) = db_ctx st \<and>
     calls (finalize E s F) = calls st1 @ Bind_parameter_count s # new @ [Finalize s]"

text \<open>
  The program of a statement that opens, closes, prepares and binds without error: its
  placeholder count, the answers of its steps and its rows.
\<close>

definition statement ::
  "int \<Rightarrow> int list \<Rightarrow> ((int \<Rightarrow> cell) \<Rightarrow> nat \<Rightarrow> (string \<times> cell) list) \<Rightarrow> program" where
  "statement n rs rows =
     \<lparr>open_result = (SQLITE_OK, Some 1), close_result = SQLITE_OK,
      prepare_result = (SQLITE_OK, Some 1), parameter_count = n,
      bind_result = (\<lambda>i. SQLITE_OK), step_results = rs, row_of = rows\<rparr>"

text \<open>
  The statement an engine call finalizes, and the statement it steps, if it does; a
  list of calls is quiet when none of them finalizes or steps.
\<close>

fun finalized :: "call \<Rightarrow> sqlite3_stmt option" where
  "finalized (Finalize s) = Some s"
| "finalized c = None"

fun stepped :: "call \<Rightarrow> sqlite3_stmt option" where
  "stepped (Step s rc) = Some s"
| "stepped c = None"

definition quiet :: "call list \<Rightarrow> bool" where
  "quiet cs \<longleftrightarrow> List.map_filter finalized cs = [] \<and> List.map_filter stepped cs = []"

text \<open>
  The round-trip query: a statement with one placeholder whose single row has one
  column, called \<open>name\<close>, that holds the value bound to the placeholder (as
  \<open>SELECT ? AS name\<close> does).
\<close>

definition echo :: "string \<Rightarrow> program" where
  "echo name = statement 1 [SQLITE_ROW, SQLITE_DONE] (\<lambda>b k. [(name, b 1)])"

text \<open>An open connection on handle 1 after the engine calls \<open>cs\<close>, \<open>n\<close> of them steps.\<close>

definition logged :: "call list \<Rightarrow> nat \<Rightarrow> sim_state state" where
  "logged cs n =
     \<lparr>db_ctx = Some 1, eng = \<lparr>bound = (\<lambda>i. C_null), steps = n\<rparr>, calls = cs, printed = []\<rparr>"

declare fetch_rows_loop.simps [code]

section \<open>Properties\<close>

lemmas codes = SQLITE_OK_def SQLITE_ROW_def SQLITE_DONE_def SQLITE_INTEGER_def SQLITE_FLOAT_def
  SQLITE_TEXT_def SQLITE_BLOB_def SQLITE_NULL_def SQLITE_OPEN_READWRITE_def SQLITE_OPEN_CREATE_def

lemmas sim_defs = sim_def statement_def opened_def closed_def logged_def plain_host_def
  sim_start_def columns_def column_def c_str_def

declare fetch_row_from.simps [simp del]

lemmas binding_defs = query_def query_with_args_def query_fetch_rows_def
  query_fetch_rows_with_args_def prepare_def bind_args_def bind_arg_def bind_at_def
  fetch_row_def fetch_column_def open_def close_def finalize_def step_def called_def
  print_error_def

subsection \<open>The operations without arguments\<close>

text \<open>
  C10: for every query text, \<open>query\<close> returns what \<open>query_with_args\<close> returns on the
  empty argument list, and \<open>query_fetch_rows\<close> what \<open>query_fetch_rows_with_args\<close>
  returns on the empty argument list (result and state alike).
\<close>

theorem same_as_with_no_arguments:
  "query H E q st = query_with_args H E q [] st \<and>
   query_fetch_rows H E q st = query_fetch_rows_with_args H E q [] st"
  by (simp add: query_def query_fetch_rows_def)

subsection \<open>The closed connection\<close>

text \<open>
  C9: while the connection is closed (\<open>db_ctx\<close> is null), each of the four statement
  operations fails, with \<open>false\<close> or the empty array, and so does \<open>close\<close> (with the
  message that the database is not opened); the state they return differs from the
  one they were given by the printed message only, so no engine call is made. And
  after a \<open>close\<close> that succeeded the connection is closed, so that a second \<open>close\<close>
  fails in that way.
\<close>

theorem closed_connection_guard:
  "(db_ctx st = None \<longrightarrow>
      query_with_args H E q args st = (False, print_error Condition_db_is_null st) \<and>
      query H E q st = (False, print_error Condition_db_is_null st) \<and>
      query_fetch_rows_with_args H E q args st = Some ([], print_error Condition_db_is_null st) \<and>
      query_fetch_rows H E q st = Some ([], print_error Condition_db_is_null st) \<and>
      close E st = (False, print_error Not_opened st) \<and>
      calls (print_error d st) = calls st \<and> eng (print_error d st) = eng st \<and>
      db_ctx (print_error d st) = None) \<and>
   (close E st0 = (True, st1) \<longrightarrow>
      db_ctx st1 = None \<and> close E st1 = (False, print_error Not_opened st1))"
  by (auto simp: query_def query_with_args_def query_fetch_rows_def
      query_fetch_rows_with_args_def prepare_def close_def print_error_def Let_def
      split: option.splits prod.splits if_splits)

theorem closed_connection_guard_witness:
  "db_ctx closed = None \<and>
   query_with_args plain_host (sim (statement 0 [SQLITE_DONE] (\<lambda>b k. []))) ''SELECT 1'' [] closed
     = (False, print_error Condition_db_is_null closed) \<and>
   query_fetch_rows plain_host (sim (statement 0 [SQLITE_DONE] (\<lambda>b k. []))) ''SELECT 1'' closed
     = Some ([], print_error Condition_db_is_null closed) \<and>
   calls (print_error Condition_db_is_null closed) = [] \<and>
   close (sim (statement 0 [SQLITE_DONE] (\<lambda>b k. []))) opened
     = (True, closed\<lparr>calls := [Close 1 0]\<rparr>) \<and>
   close (sim (statement 0 [SQLITE_DONE] (\<lambda>b k. []))) (closed\<lparr>calls := [Close 1 0]\<rparr>)
     = (False, print_error Not_opened (closed\<lparr>calls := [Close 1 0]\<rparr>))"
proof -
  have c: "db_ctx closed = None"
    by (simp add: closed_def)
  have o: "close (sim (statement 0 [SQLITE_DONE] (\<lambda>b k. []))) opened
             = (True, closed\<lparr>calls := [Close 1 0]\<rparr>)"
    by (simp add: close_def called_def sim_defs codes)
  show ?thesis
    using c o
      closed_connection_guard [where st = closed and H = plain_host
        and E = "sim (statement 0 [SQLITE_DONE] (\<lambda>b k. []))" and q = "''SELECT 1''"
        and args = "[]" and d = Condition_db_is_null and ?st0.0 = opened
        and ?st1.0 = "closed\<lparr>calls := [Close 1 0]\<rparr>"]
    by (simp add: closed_def print_error_def)
qed

subsection \<open>A step that fails\<close>

text \<open>
  C1, at an input where it fails: a step that answers 19 (\<open>SQLITE_CONSTRAINT\<close>, an
  insert that violates a key) makes \<open>query_fetch_rows\<close> return the empty array through
  the default branch of its loop, and the engine calls made are the prepare, the
  placeholder count and the step: the statement is never finalized.
\<close>

theorem fetch_step_error_leaves_statement:
  "query_fetch_rows plain_host (sim (statement 0 [19] (\<lambda>b k. [])))
     ''INSERT INTO fruits VALUES (1, 2)'' opened
   = Some ([], \<lparr>db_ctx = Some 1, eng = \<lparr>bound = (\<lambda>i. C_null), steps = 1\<rparr>,
        calls = [Prepare_v2 1 ''INSERT INTO fruits VALUES (1, 2)'' 0, Bind_parameter_count 1,
                 Step 1 19],
        printed = [Unsupported_step_result 19]\<rparr>)"
  by (simp add: binding_defs fetch_rows_loop.simps sim_defs codes)

text \<open>
  C3, at an input where it fails: on the same statement \<open>query\<close> makes its one step,
  which answers 19, finalizes the statement, prints nothing and returns \<open>true\<close>.
\<close>

theorem query_hides_step_error:
  "query plain_host (sim (statement 0 [19] (\<lambda>b k. [])))
     ''INSERT INTO fruits VALUES (1, 2)'' opened
   = (True, \<lparr>db_ctx = Some 1, eng = \<lparr>bound = (\<lambda>i. C_null), steps = 1\<rparr>,
        calls = [Prepare_v2 1 ''INSERT INTO fruits VALUES (1, 2)'' 0, Bind_parameter_count 1,
                 Step 1 19, Finalize 1],
        printed = []\<rparr>)"
  by (simp add: binding_defs sim_defs codes)

subsection \<open>An open that fails\<close>

text \<open>
  C5, at an input where it fails: the engine cannot open the file, answers 14
  (\<open>SQLITE_CANTOPEN\<close>) and, as it does on every failure but one of memory, still writes
  a handle through the pointer to \<open>db_ctx\<close> it was given. \<open>open\<close> returns \<open>false\<close> and
  \<open>db_ctx\<close> holds that handle: a \<open>close\<close> right after it does not fail as on a closed
  connection, it closes the handle.
\<close>

theorem failed_open_keeps_handle:
  "open plain_host (sim ((statement 0 [] (\<lambda>b k. []))\<lparr>open_result := (14, Some 1)\<rparr>))
     ''/no/such/dir/db.sqlite'' closed
   = (False, \<lparr>db_ctx = Some 1, eng = sim_start,
        calls = [Open_v2 ''/no/such/dir/db.sqlite'' 6 14], printed = [Failed_to_open]\<rparr>) \<and>
   close (sim ((statement 0 [] (\<lambda>b k. []))\<lparr>open_result := (14, Some 1)\<rparr>))
     \<lparr>db_ctx = Some 1, eng = sim_start,
      calls = [Open_v2 ''/no/such/dir/db.sqlite'' 6 14], printed = [Failed_to_open]\<rparr>
   = (True, \<lparr>db_ctx = None, eng = sim_start,
        calls = [Open_v2 ''/no/such/dir/db.sqlite'' 6 14, Close 1 0], printed = [Failed_to_open]\<rparr>)"
  by (simp add: binding_defs sim_defs codes)

subsection \<open>A step error in the middle of a fetch\<close>

lemma rows_fetched_loop:
  "rows_fetched H E stmt n array st = Some (array', st') \<Longrightarrow>
   fetch_rows_loop H E stmt array st = fetch_rows_loop H E stmt array' st'"
proof (induction n arbitrary: array st)
  case 0
  then show ?case by simp
next
  case (Suc n)
  obtain result st1 where s: "step E stmt st = (result, st1)"
    by (cases "step E stmt st")
  obtain row st2 where r: "fetch_row H E stmt st1 = (row, st2)"
    by (cases "fetch_row H E stmt st1")
  from Suc.prems s r have row: "result = SQLITE_ROW"
    and rest: "rows_fetched H E stmt n (array @ [row]) st2 = Some (array', st')"
    by (simp_all split: if_splits)
  have "fetch_rows_loop H E stmt array st = fetch_rows_loop H E stmt (array @ [row]) st2"
    by (subst fetch_rows_loop.simps) (simp add: s r row)
  with Suc.IH [OF rest] show ?case by simp
qed

lemma rows_fetched_length:
  "rows_fetched H E stmt n array st = Some (array', st') \<Longrightarrow> length array' = length array + n"
proof (induction n arbitrary: array st)
  case 0
  then show ?case by simp
next
  case (Suc n)
  then show ?case
    by (fastforce split: prod.splits if_splits)
qed

text \<open>
  C7: in \<open>query_fetch_rows_with_args\<close> (and so in \<open>query_fetch_rows\<close>), when the
  statement was prepared and bound, the first \<open>n\<close> steps each delivered a row that was
  fetched into the array, and the next step answers a code that is neither
  \<open>SQLITE_ROW\<close> nor \<open>SQLITE_DONE\<close>, the call returns, and what it returns is the empty
  array: the \<open>n\<close> rows fetched so far are dropped.
\<close>

theorem step_error_discards_rows:
  assumes "prepare E (db_ctx st) (utf8 H q) st = (Some s, st1)"
    and "bind_args H E s args st1 = (True, st2)"
    and "rows_fetched H E s n [] st2 = Some (array, st3)"
    and "step E s st3 = (result, st4)"
    and "result \<noteq> SQLITE_ROW" and "result \<noteq> SQLITE_DONE"
  shows "length array = n \<and>
         query_fetch_rows_with_args H E q args st
           = Some ([], print_error (Unsupported_step_result result) st4)"
proof -
  have "fetch_rows_loop H E s [] st2 = fetch_rows_loop H E s array st3"
    using assms(3) by (rule rows_fetched_loop)
  also have "\<dots> = Some (Returned_empty, print_error (Unsupported_step_result result) st4)"
    using assms(4-6) by (subst fetch_rows_loop.simps) simp
  finally show ?thesis
    using assms(1,2) rows_fetched_length [OF assms(3)]
    by (simp add: query_fetch_rows_with_args_def)
qed

theorem step_error_discards_rows_witness:
  "prepare (sim (statement 0 [SQLITE_ROW, 19] (\<lambda>b k. [(''price'', C_integer 14)])))
     (db_ctx (logged [] 0)) (utf8 plain_host ''SELECT price FROM fruits'') (logged [] 0)
     = (Some 1, logged [Prepare_v2 1 ''SELECT price FROM fruits'' 0] 0) \<and>
   bind_args plain_host (sim (statement 0 [SQLITE_ROW, 19] (\<lambda>b k. [(''price'', C_integer 14)]))) 1 []
     (logged [Prepare_v2 1 ''SELECT price FROM fruits'' 0] 0)
     = (True, logged [Prepare_v2 1 ''SELECT price FROM fruits'' 0, Bind_parameter_count 1] 0) \<and>
   rows_fetched plain_host (sim (statement 0 [SQLITE_ROW, 19] (\<lambda>b k. [(''price'', C_integer 14)])))
     1 1 [] (logged [Prepare_v2 1 ''SELECT price FROM fruits'' 0, Bind_parameter_count 1] 0)
     = Some ([[(''price'', INT' 14)]],
         logged [Prepare_v2 1 ''SELECT price FROM fruits'' 0, Bind_parameter_count 1,
           Step 1 100, Column_count 1, Column_name 1 0, Column_type 1 0, Column_int 1 0] 1) \<and>
   step (sim (statement 0 [SQLITE_ROW, 19] (\<lambda>b k. [(''price'', C_integer 14)]))) 1
     (logged [Prepare_v2 1 ''SELECT price FROM fruits'' 0, Bind_parameter_count 1,
           Step 1 100, Column_count 1, Column_name 1 0, Column_type 1 0, Column_int 1 0] 1)
     = (19, logged [Prepare_v2 1 ''SELECT price FROM fruits'' 0, Bind_parameter_count 1,
           Step 1 100, Column_count 1, Column_name 1 0, Column_type 1 0, Column_int 1 0,
           Step 1 19] 2) \<and>
   19 \<noteq> SQLITE_ROW \<and> 19 \<noteq> SQLITE_DONE \<and>
   query_fetch_rows_with_args plain_host
     (sim (statement 0 [SQLITE_ROW, 19] (\<lambda>b k. [(''price'', C_integer 14)])))
     ''SELECT price FROM fruits'' [] (logged [] 0)
     = Some ([], print_error (Unsupported_step_result 19)
         (logged [Prepare_v2 1 ''SELECT price FROM fruits'' 0, Bind_parameter_count 1,
           Step 1 100, Column_count 1, Column_name 1 0, Column_type 1 0, Column_int 1 0,
           Step 1 19] 2))"
  (is "?p \<and> ?b \<and> ?r \<and> ?s \<and> ?n1 \<and> ?n2 \<and> ?q")
proof -
  have p: ?p
    by (simp add: binding_defs sim_defs codes)
  have b: ?b
    by (simp add: binding_defs sim_defs codes)
  have r: ?r
    by (simp add: binding_defs fetch_row_from.simps sim_defs codes)
  have s: ?s
    by (simp add: binding_defs sim_defs codes)
  have n1: ?n1 and n2: ?n2
    by (simp_all add: codes)
  from step_error_discards_rows [OF p b r s n1 n2] have ?q
    by simp
  with p b r s n1 n2 show ?thesis
    by blast
qed

subsection \<open>The columns of a row\<close>

lemma fetch_column_supported:
  assumes "supported_type (sqlite3_column_type E stmt i (eng st))"
  shows "\<exists>cs. fetch_column H E stmt i result st
           = (Some (store result (entry H E stmt (eng st) i)), st\<lparr>calls := calls st @ cs\<rparr>) \<and>
         list_all (\<lambda>c. column_index c = Some i) cs"
  using assms unfolding supported_type_def
  by (auto simp: fetch_column_def store_def entry_def decoded_def called_def Let_def codes)

lemma fetch_column_unsupported:
  assumes "\<not> supported_type (sqlite3_column_type E stmt i (eng st))"
  shows "fetch_column H E stmt i result st
           = (None, st\<lparr>calls := calls st @ [Column_name stmt i, Column_type stmt i],
                      printed := printed st @ [Unsupported_column_type (sqlite3_column_type E stmt i (eng st))]\<rparr>)"
  using assms unfolding supported_type_def
  by (simp add: fetch_column_def called_def print_error_def Let_def)

lemma fetch_row_from_supported:
  assumes "\<forall>j. i \<le> j \<and> j < column_count \<longrightarrow> supported_type (sqlite3_column_type E stmt j (eng st))"
    and "column_count = sqlite3_column_count E stmt (eng st)"
  shows "fst (fetch_row_from H E stmt column_count i result st)
           = foldl store result (map (entry H E stmt (eng st)) [i..column_count - 1])"
  using assms
proof (induction H E stmt column_count i result st rule: fetch_row_from.induct)
  case (1 H E stmt column_count i result st)
  show ?case
  proof (cases "i < column_count")
    case False
    then show ?thesis
      by (simp add: fetch_row_from.simps [of _ _ _ _ i])
  next
    case True
    with "1.prems" have "supported_type (sqlite3_column_type E stmt i (eng st))"
      by simp
    from fetch_column_supported [OF this, of H result] obtain cs
      where fc: "fetch_column H E stmt i result st
           = (Some (store result (entry H E stmt (eng st) i)), st\<lparr>calls := calls st @ cs\<rparr>)"
      by blast
    have "fst (fetch_row_from H E stmt column_count (i + 1) (store result (entry H E stmt (eng st) i))
                 (st\<lparr>calls := calls st @ cs\<rparr>))
            = foldl store (store result (entry H E stmt (eng st) i))
                (map (entry H E stmt (eng (st\<lparr>calls := calls st @ cs\<rparr>))) [i + 1..column_count - 1])"
      using "1.prems" by (intro "1.IH" [OF True fc [symmetric] refl]) auto
    then show ?thesis
      using True fc by (simp add: fetch_row_from.simps [of _ _ _ _ i] upto_rec1 [of i])
  qed
qed


lemma foldl_store_map_of:
  "map_of (foldl store result (map f xs)) = map_of (rev (List.map_filter f xs) @ result)"
proof (induction xs arbitrary: result)
  case Nil
  then show ?case by simp
next
  case (Cons x xs)
  show ?case
  proof (cases "f x")
    case None
    then show ?thesis
      using Cons.IH [of result] by (simp add: store_def)
  next
    case (Some kv)
    then show ?thesis
      using Cons.IH [of "AList.update (fst kv) (snd kv) result"]
      by (cases kv) (simp add: store_def update_conv' map_add_def fun_eq_iff
          split: option.splits)
  qed
qed

lemma update_fresh: "k \<notin> fst ` set result \<Longrightarrow> AList.update k v result = result @ [(k, v)]"
  by (induction result) auto

lemma foldl_store_distinct:
  "distinct (map fst (result @ List.map_filter f xs)) \<Longrightarrow>
   foldl store result (map f xs) = result @ List.map_filter f xs"
proof (induction xs arbitrary: result)
  case Nil
  then show ?case by simp
next
  case (Cons x xs)
  show ?case
  proof (cases "f x")
    case None
    then show ?thesis
      using Cons by (simp add: store_def)
  next
    case (Some kv)
    obtain k v where kv: "kv = (k, v)" by (cases kv)
    from Cons.prems Some kv have fresh: "k \<notin> fst ` set result"
      and d: "distinct (map fst ((result @ [(k, v)]) @ List.map_filter f xs))"
      by auto
    show ?thesis
      using Cons.IH [OF d] Some kv fresh
      by (simp add: store_def update_fresh)
  qed
qed

text \<open>
  C8, as amended: a column that reports the type NULL writes no entry (the Record is
  as it was before the column). For a row whose columns all report one of the five
  types, looking a key up in the Record gives the decoded value of the last non-NULL
  column with that name, and nothing when no non-NULL column has that name; and when
  the names of the non-NULL columns are pairwise distinct, the Record is exactly those
  columns, in column order, each with its decoded value.
\<close>

theorem null_columns_left_out:
  "(sqlite3_column_type E stmt i (eng st') = SQLITE_NULL \<longrightarrow>
      fst (fetch_column H E stmt i result st') = Some result) \<and>
   ((\<forall>j. 0 \<le> j \<and> j < sqlite3_column_count E stmt (eng st) \<longrightarrow>
          supported_type (sqlite3_column_type E stmt j (eng st))) \<longrightarrow>
      map_of (fst (fetch_row H E stmt st)) = map_of (rev (entries H E stmt (eng st) 0)) \<and>
      (distinct (map fst (entries H E stmt (eng st) 0)) \<longrightarrow>
         fst (fetch_row H E stmt st) = entries H E stmt (eng st) 0))"
proof (intro conjI impI)
  assume "sqlite3_column_type E stmt i (eng st') = SQLITE_NULL"
  then show "fst (fetch_column H E stmt i result st') = Some result"
    by (simp add: fetch_column_def Let_def codes)
next
  assume sup: "\<forall>j. 0 \<le> j \<and> j < sqlite3_column_count E stmt (eng st) \<longrightarrow>
          supported_type (sqlite3_column_type E stmt j (eng st))"
  have row: "fst (fetch_row H E stmt st)
      = foldl store [] (map (entry H E stmt (eng st)) [0..sqlite3_column_count E stmt (eng st) - 1])"
    using sup
    by (simp add: fetch_row_def Let_def called_def
        fetch_row_from_supported [where st = "st\<lparr>calls := calls st @ [Column_count stmt]\<rparr>", simplified])
  show "map_of (fst (fetch_row H E stmt st)) = map_of (rev (entries H E stmt (eng st) 0))"
    by (simp add: row foldl_store_map_of entries_def)
  assume "distinct (map fst (entries H E stmt (eng st) 0))"
  then show "fst (fetch_row H E stmt st) = entries H E stmt (eng st) 0"
    using foldl_store_distinct [of "[]" "entry H E stmt (eng st)"
        "[0..sqlite3_column_count E stmt (eng st) - 1]"]
    by (simp add: row entries_def)
qed


theorem null_columns_left_out_witness:
  "sqlite3_column_type (sim (statement 0 [SQLITE_ROW, SQLITE_DONE]
       (\<lambda>b k. [(''name'', C_text ''apple''), (''note'', C_null), (''price'', C_integer 14)])))
     1 1 (eng (logged [Step 1 100] 1)) = SQLITE_NULL \<and>
   fst (fetch_column plain_host (sim (statement 0 [SQLITE_ROW, SQLITE_DONE]
       (\<lambda>b k. [(''name'', C_text ''apple''), (''note'', C_null), (''price'', C_integer 14)])))
     1 1 [(''name'', STRING ''apple'')] (logged [Step 1 100] 1)) = Some [(''name'', STRING ''apple'')] \<and>
   sqlite3_column_count (sim (statement 0 [SQLITE_ROW, SQLITE_DONE]
       (\<lambda>b k. [(''name'', C_text ''apple''), (''note'', C_null), (''price'', C_integer 14)])))
     1 (eng (logged [Step 1 100] 1)) = 3 \<and>
   entries plain_host (sim (statement 0 [SQLITE_ROW, SQLITE_DONE]
       (\<lambda>b k. [(''name'', C_text ''apple''), (''note'', C_null), (''price'', C_integer 14)])))
     1 (eng (logged [Step 1 100] 1)) 0 = [(''name'', STRING ''apple''), (''price'', INT' 14)] \<and>
   fst (fetch_row plain_host (sim (statement 0 [SQLITE_ROW, SQLITE_DONE]
       (\<lambda>b k. [(''name'', C_text ''apple''), (''note'', C_null), (''price'', C_integer 14)])))
     1 (logged [Step 1 100] 1)) = [(''name'', STRING ''apple''), (''price'', INT' 14)]"
  (is "?n \<and> ?fc \<and> ?cc \<and> ?en \<and> ?fr")
proof -
  let ?E = "sim (statement 0 [SQLITE_ROW, SQLITE_DONE]
       (\<lambda>b k. [(''name'', C_text ''apple''), (''note'', C_null), (''price'', C_integer 14)]))"
  let ?st = "logged [Step 1 100] 1"
  have n: ?n
    by (simp add: sim_defs codes)
  have cc: ?cc
    by (simp add: sim_defs)
  have ty: "sqlite3_column_type ?E 1 0 (eng ?st) = SQLITE_TEXT"
    "sqlite3_column_type ?E 1 2 (eng ?st) = SQLITE_INTEGER"
    by (simp_all add: sim_defs codes)
  have sup: "\<forall>j. 0 \<le> j \<and> j < sqlite3_column_count ?E 1 (eng ?st) \<longrightarrow>
      supported_type (sqlite3_column_type ?E 1 j (eng ?st))"
  proof (intro allI impI)
    fix j :: int
    assume "0 \<le> j \<and> j < sqlite3_column_count ?E 1 (eng ?st)"
    then have "j = 0 \<or> j = 1 \<or> j = 2"
      unfolding cc by auto
    then show "supported_type (sqlite3_column_type ?E 1 j (eng ?st))"
      using n ty by (auto simp: supported_type_def)
  qed
  have up: "[0..2::int] = [0, 1, 2]"
    by (simp add: upto.simps)
  have en: ?en
    unfolding entries_def cc
    by (simp add: up entry_def decoded_def sim_defs codes)
  have d: "distinct (map fst (entries plain_host ?E 1 (eng ?st) 0))"
    unfolding en by simp
  from null_columns_left_out [of ?E 1 1 ?st plain_host "[(''name'', STRING ''apple'')]" ?st] n sup d
  have ?fc and ?fr
    unfolding en by blast+
  with n cc en show ?thesis
    by blast
qed

text \<open>
  C8 as it is stated fails: the second column of the row is NULL and is named \<open>a\<close>, as
  the first column is, and the key \<open>a\<close> is present in the Record.
\<close>

theorem null_column_with_shared_name:
  "sqlite3_column_type (sim (statement 0 [SQLITE_ROW, SQLITE_DONE] (\<lambda>b k. [(''a'', C_integer 1), (''a'', C_null)])))
     1 1 (eng (logged [Step 1 100] 1)) = SQLITE_NULL \<and>
   sqlite3_column_name (sim (statement 0 [SQLITE_ROW, SQLITE_DONE] (\<lambda>b k. [(''a'', C_integer 1), (''a'', C_null)])))
     1 1 (eng (logged [Step 1 100] 1)) = ''a'' \<and>
   map_of (fst (fetch_row plain_host
      (sim (statement 0 [SQLITE_ROW, SQLITE_DONE] (\<lambda>b k. [(''a'', C_integer 1), (''a'', C_null)])))
      1 (logged [Step 1 100] 1))) ''a'' = Some (INT' 1)"
  by (simp add: binding_defs fetch_row_from.simps sim_defs codes)

lemma fetch_row_from_unsupported:
  assumes "i0 \<le> i" and "i < column_count"
    and "\<forall>j. i0 \<le> j \<and> j < i \<longrightarrow> supported_type (sqlite3_column_type E stmt j (eng st))"
    and "\<not> supported_type (sqlite3_column_type E stmt i (eng st))"
  shows "\<exists>cs. fetch_row_from H E stmt column_count i0 result st
           = ([], st\<lparr>calls := calls st @ cs,
                    printed := printed st @ [Unsupported_column_type (sqlite3_column_type E stmt i (eng st))]\<rparr>) \<and>
         list_all (reads_up_to i) cs"
  using assms
proof (induction H E stmt column_count i0 result st rule: fetch_row_from.induct)
  case (1 H E stmt column_count i0 result st)
  from "1.prems" have lt: "i0 < column_count" by simp
  show ?case
  proof (cases "i0 = i")
    case True
    have "fetch_row_from H E stmt column_count i result st
            = ([], st\<lparr>calls := calls st @ [Column_name stmt i, Column_type stmt i],
                    printed := printed st @
                      [Unsupported_column_type (sqlite3_column_type E stmt i (eng st))]\<rparr>)"
      using lt True fetch_column_unsupported [OF "1.prems"(4), of H result]
      by (simp add: fetch_row_from.simps [of _ _ _ _ i])
    moreover have "list_all (reads_up_to i) [Column_name stmt i, Column_type stmt i]"
      by (simp add: reads_up_to_def)
    ultimately show ?thesis
      using True by blast
  next
    case False
    with "1.prems" have "supported_type (sqlite3_column_type E stmt i0 (eng st))" and less: "i0 + 1 \<le> i"
      by simp_all
    from fetch_column_supported [OF this(1), of H result] obtain cs
      where fc: "fetch_column H E stmt i0 result st
           = (Some (store result (entry H E stmt (eng st) i0)), st\<lparr>calls := calls st @ cs\<rparr>)"
        and cs: "list_all (\<lambda>c. column_index c = Some i0) cs"
      by blast
    have "\<exists>cs'. fetch_row_from H E stmt column_count (i0 + 1) (store result (entry H E stmt (eng st) i0))
                 (st\<lparr>calls := calls st @ cs\<rparr>)
            = ([], (st\<lparr>calls := calls st @ cs\<rparr>)\<lparr>calls := calls (st\<lparr>calls := calls st @ cs\<rparr>) @ cs',
                    printed := printed (st\<lparr>calls := calls st @ cs\<rparr>) @
                      [Unsupported_column_type (sqlite3_column_type E stmt i (eng (st\<lparr>calls := calls st @ cs\<rparr>)))]\<rparr>) \<and>
         list_all (reads_up_to i) cs'"
      using "1.prems" less by (intro "1.IH" [OF lt fc [symmetric] refl]) auto
    then obtain cs' where rest: "fetch_row_from H E stmt column_count (i0 + 1)
                 (store result (entry H E stmt (eng st) i0)) (st\<lparr>calls := calls st @ cs\<rparr>)
            = ([], st\<lparr>calls := calls st @ cs @ cs',
                    printed := printed st @ [Unsupported_column_type (sqlite3_column_type E stmt i (eng st))]\<rparr>)"
      and cs': "list_all (reads_up_to i) cs'"
      by auto
    have "list_all (reads_up_to i) (cs @ cs')"
      using cs cs' less by (auto simp: list_all_iff reads_up_to_def)
    then show ?thesis
      using lt fc rest by (auto simp: fetch_row_from.simps [of _ _ _ _ i0])
  qed
qed

text \<open>
  What the code does at a column of a type it has no case for, for any engine: when a
  step has delivered a row and column \<open>i\<close> is the first column of that row that
  reports a type outside the five, \<open>fetch_row\<close> prints the message for that type,
  reads no column beyond \<open>i\<close> and returns the empty Dictionary, and the loop of
  \<open>query_fetch_rows_with_args\<close>, which cannot tell that return from a row, appends it
  and goes on to its next step.
\<close>

lemma unsupported_column_empties_row:
  assumes "step E stmt st0 = (SQLITE_ROW, st)"
    and "0 \<le> i" and "i < sqlite3_column_count E stmt (eng st)"
    and "\<forall>j. 0 \<le> j \<and> j < i \<longrightarrow> supported_type (sqlite3_column_type E stmt j (eng st))"
    and "\<not> supported_type (sqlite3_column_type E stmt i (eng st))"
  shows "\<exists>cs. list_all (reads_up_to i) cs \<and>
           fetch_row H E stmt st
             = ([], st\<lparr>calls := calls st @ cs,
                      printed := printed st @
                        [Unsupported_column_type (sqlite3_column_type E stmt i (eng st))]\<rparr>) \<and>
           fetch_rows_loop H E stmt array st0
             = fetch_rows_loop H E stmt (array @ [[]])
                 (st\<lparr>calls := calls st @ cs,
                     printed := printed st @
                       [Unsupported_column_type (sqlite3_column_type E stmt i (eng st))]\<rparr>)"
proof -
  let ?st1 = "st\<lparr>calls := calls st @ [Column_count stmt]\<rparr>"
  from fetch_row_from_unsupported [of 0 i "sqlite3_column_count E stmt (eng st)" E stmt ?st1 H "[]"]
    assms(2-5)
  obtain cs where row: "fetch_row_from H E stmt (sqlite3_column_count E stmt (eng st)) 0 [] ?st1
           = ([], st\<lparr>calls := calls st @ Column_count stmt # cs,
                    printed := printed st @ [Unsupported_column_type (sqlite3_column_type E stmt i (eng st))]\<rparr>)"
    and cs: "list_all (reads_up_to i) cs"
    by auto
  have fr: "fetch_row H E stmt st
           = ([], st\<lparr>calls := calls st @ Column_count stmt # cs,
                    printed := printed st @ [Unsupported_column_type (sqlite3_column_type E stmt i (eng st))]\<rparr>)"
    using row by (simp add: fetch_row_def called_def Let_def)
  have "list_all (reads_up_to i) (Column_count stmt # cs)"
    using cs by (simp add: reads_up_to_def)
  moreover have "fetch_rows_loop H E stmt array st0
             = fetch_rows_loop H E stmt (array @ [[]])
                 (st\<lparr>calls := calls st @ Column_count stmt # cs,
                     printed := printed st @
                       [Unsupported_column_type (sqlite3_column_type E stmt i (eng st))]\<rparr>)"
    by (subst fetch_rows_loop.simps) (simp add: assms(1) fr)
  ultimately show ?thesis
    using fr by blast
qed

lemma unsupported_column_empties_row_witness:
  "step (sim (statement 0 [SQLITE_ROW, SQLITE_DONE]
           (\<lambda>b k. [(''a'', C_integer 1), (''b'', C_unknown 7), (''c'', C_integer 2)])))
     1 (logged [] 0) = (SQLITE_ROW, logged [Step 1 100] 1) \<and>
   (0::int) \<le> 1 \<and>
   1 < sqlite3_column_count (sim (statement 0 [SQLITE_ROW, SQLITE_DONE]
           (\<lambda>b k. [(''a'', C_integer 1), (''b'', C_unknown 7), (''c'', C_integer 2)])))
         1 (eng (logged [Step 1 100] 1)) \<and>
   supported_type (sqlite3_column_type (sim (statement 0 [SQLITE_ROW, SQLITE_DONE]
           (\<lambda>b k. [(''a'', C_integer 1), (''b'', C_unknown 7), (''c'', C_integer 2)])))
         1 0 (eng (logged [Step 1 100] 1))) \<and>
   \<not> supported_type (sqlite3_column_type (sim (statement 0 [SQLITE_ROW, SQLITE_DONE]
           (\<lambda>b k. [(''a'', C_integer 1), (''b'', C_unknown 7), (''c'', C_integer 2)])))
         1 1 (eng (logged [Step 1 100] 1))) \<and>
   (\<exists>cs. list_all (reads_up_to 1) cs \<and>
      fetch_row plain_host (sim (statement 0 [SQLITE_ROW, SQLITE_DONE]
           (\<lambda>b k. [(''a'', C_integer 1), (''b'', C_unknown 7), (''c'', C_integer 2)])))
         1 (logged [Step 1 100] 1)
        = ([], (logged [Step 1 100] 1)\<lparr>calls := calls (logged [Step 1 100] 1) @ cs,
                 printed := printed (logged [Step 1 100] 1) @ [Unsupported_column_type 7]\<rparr>) \<and>
      fetch_rows_loop plain_host (sim (statement 0 [SQLITE_ROW, SQLITE_DONE]
           (\<lambda>b k. [(''a'', C_integer 1), (''b'', C_unknown 7), (''c'', C_integer 2)])))
         1 [] (logged [] 0)
        = fetch_rows_loop plain_host (sim (statement 0 [SQLITE_ROW, SQLITE_DONE]
           (\<lambda>b k. [(''a'', C_integer 1), (''b'', C_unknown 7), (''c'', C_integer 2)])))
         1 ([] @ [[]]) ((logged [Step 1 100] 1)\<lparr>calls := calls (logged [Step 1 100] 1) @ cs,
                 printed := printed (logged [Step 1 100] 1) @ [Unsupported_column_type 7]\<rparr>))"
  (is "?s \<and> ?i0 \<and> ?i1 \<and> ?c0 \<and> ?c1 \<and> ?concl")
proof -
  let ?E = "sim (statement 0 [SQLITE_ROW, SQLITE_DONE]
           (\<lambda>b k. [(''a'', C_integer 1), (''b'', C_unknown 7), (''c'', C_integer 2)]))"
  have s: ?s
    by (simp add: binding_defs sim_defs codes)
  have i0: ?i0
    by simp
  have i1: ?i1
    by (simp add: sim_defs)
  have c0: ?c0
    by (simp add: supported_type_def sim_defs codes)
  have c1: ?c1
    by (simp add: supported_type_def sim_defs codes)
  have before: "\<forall>j. 0 \<le> j \<and> j < 1 \<longrightarrow>
      supported_type (sqlite3_column_type ?E 1 j (eng (logged [Step 1 100] 1)))"
  proof (intro allI impI)
    fix j :: int
    assume "0 \<le> j \<and> j < 1"
    then have "j = 0" by simp
    with c0 show "supported_type (sqlite3_column_type ?E 1 j (eng (logged [Step 1 100] 1)))"
      by simp
  qed
  have t: "sqlite3_column_type ?E 1 1 (eng (logged [Step 1 100] 1)) = 7"
    by (simp add: sim_defs)
  from unsupported_column_empties_row [OF s i0 i1 before c1, of plain_host "[]"] have ?concl
    unfolding t .
  with s i0 i1 c0 c1 show ?thesis
    by blast
qed


subsection \<open>A bind that fails\<close>

declare bind_args_from.simps [simp del]

lemma bind_at_result:
  "\<exists>rc. bind_at E s i p st
     = (rc = SQLITE_OK,
        (if rc = SQLITE_OK then id else print_error (Failed_to_bind (i + 1) rc))
          (called (Bind s (i + 1) p rc) (st\<lparr>eng := snd (sqlite3_bind E s (i + 1) p (eng st))\<rparr>)))"
  by (rule exI [of _ "fst (sqlite3_bind E s (i + 1) p (eng st))"])
    (simp add: bind_at_def split_def Let_def)

lemma bind_arg_result:
  assumes "bind_arg H E s i arg st = (ok, st1)"
  shows "db_ctx st1 = db_ctx st \<and>
         (if unsupported arg then \<not> ok \<and> calls st1 = calls st
          else \<exists>p rc. calls st1 = calls st @ [Bind s (i + 1) p rc] \<and> (ok \<longleftrightarrow> rc = SQLITE_OK))"
proof (cases arg)
  case (OTHER t)
  with assms show ?thesis
    by (auto simp: bind_arg_def print_error_def)
next
  case NIL
  with assms bind_at_result [of E s i bind_null st] show ?thesis
    by (auto simp: bind_arg_def print_error_def called_def split: if_splits)
next
  case (INT' v)
  with assms bind_at_result [of E s i "bind_int (ucast v)" st] show ?thesis
    by (auto simp: bind_arg_def print_error_def called_def split: if_splits)
next
  case (FLOAT d)
  with assms bind_at_result [of E s i "bind_double d" st] show ?thesis
    by (auto simp: bind_arg_def print_error_def called_def split: if_splits)
next
  case (STRING x)
  with assms bind_at_result [of E s i "bind_text (utf8 H x)" st] show ?thesis
    by (auto simp: bind_arg_def print_error_def called_def split: if_splits)
next
  case (PACKED_BYTE_ARRAY b)
  with assms bind_at_result [of E s i "bind_blob b" st] show ?thesis
    by (auto simp: bind_arg_def print_error_def called_def split: if_splits)
qed

lemma attempts_Cons:
  assumes "attempts (i + 1) n args ok bs" and "0 \<le> i" and "i < n" and "\<not> unsupported (args ! nat i)"
  shows "attempts i n args ok ((i + 1, p, SQLITE_OK) # bs)"
proof -
  have pos: "\<forall>j<length ((i + 1, p, SQLITE_OK) # bs). fst (((i + 1, p, SQLITE_OK) # bs) ! j) = i + int j + 1"
    using assms(1) by (auto simp: attempts_def nth_Cons split: nat.splits)
  have oks: "\<forall>j. Suc j < length ((i + 1, p, SQLITE_OK) # bs) \<longrightarrow>
      snd (snd (((i + 1, p, SQLITE_OK) # bs) ! j)) = SQLITE_OK"
    using assms(1) by (auto simp: attempts_def nth_Cons split: nat.splits)
  have uns: "\<forall>k. i \<le> k \<and> k < n \<and> unsupported (args ! nat k) \<longrightarrow>
      i + int (length ((i + 1, p, SQLITE_OK) # bs)) \<le> k"
  proof (intro allI impI)
    fix k assume k: "i \<le> k \<and> k < n \<and> unsupported (args ! nat k)"
    with assms(4) have "k \<noteq> i" by auto
    with k have "i + 1 \<le> k \<and> k < n \<and> unsupported (args ! nat k)" by simp
    with assms(1) have "i + 1 + int (length bs) \<le> k"
      unfolding attempts_def by blast
    then show "i + int (length ((i + 1, p, SQLITE_OK) # bs)) \<le> k" by simp
  qed
  have fin: "if ok then i + int (length ((i + 1, p, SQLITE_OK) # bs)) = n \<and>
        (\<forall>j<length ((i + 1, p, SQLITE_OK) # bs). snd (snd (((i + 1, p, SQLITE_OK) # bs) ! j)) = SQLITE_OK)
      else (((i + 1, p, SQLITE_OK) # bs) \<noteq> [] \<and> snd (snd (last ((i + 1, p, SQLITE_OK) # bs))) \<noteq> SQLITE_OK) \<or>
           (i + int (length ((i + 1, p, SQLITE_OK) # bs)) < n \<and>
            unsupported (args ! nat (i + int (length ((i + 1, p, SQLITE_OK) # bs)))))"
    using assms(1) by (auto simp: attempts_def nth_Cons add_ac split: nat.splits)
  have len: "i + int (length ((i + 1, p, SQLITE_OK) # bs)) \<le> n"
    using assms(1) by (simp add: attempts_def)
  show ?thesis
    unfolding attempts_def using len pos oks uns fin by blast
qed

lemma bind_args_from_calls:
  assumes "0 \<le> i" and "i \<le> n"
    and "bind_args_from H E s n args i st = (ok, st')"
  shows "db_ctx st' = db_ctx st \<and>
         (\<exists>bs. calls st' = calls st @ map (bind_call s) bs \<and> attempts i n args ok bs)"
  using assms
proof (induction H E s n args i st rule: bind_args_from.induct)
  case (1 H E s n args i st)
  show ?case
  proof (cases "i < n")
    case False
    have "bind_args_from H E s n args i st = (True, st)"
      using False by (subst bind_args_from.simps) simp
    with False "1.prems" have "st' = st" "ok" "i = n"
      by simp_all
    then show ?thesis
      by (auto simp: attempts_def intro!: exI [of _ "[]"])
  next
    case True
    obtain ok1 st1 where b: "bind_arg H E s i (args ! nat i) st = (ok1, st1)"
      by (cases "bind_arg H E s i (args ! nat i) st")
    note r = bind_arg_result [OF b]
    show ?thesis
    proof (cases "unsupported (args ! nat i)")
      case uns: True
      with r have "\<not> ok1" "calls st1 = calls st" "db_ctx st1 = db_ctx st"
        by simp_all
      moreover from this True b "1.prems" have "st' = st1" "\<not> ok"
        by (simp_all add: bind_args_from.simps [of _ _ _ _ _ i])
      ultimately show ?thesis
        using True uns by (auto simp: attempts_def intro!: exI [of _ "[]"])
    next
      case sup: False
      with r obtain p rc where c: "calls st1 = calls st @ [Bind s (i + 1) p rc]"
        and ok1: "ok1 \<longleftrightarrow> rc = SQLITE_OK" and db: "db_ctx st1 = db_ctx st"
        by auto
      show ?thesis
      proof (cases ok1)
        case False
        with True b "1.prems" have "st' = st1" "\<not> ok"
          by (simp_all add: bind_args_from.simps [of _ _ _ _ _ i])
        moreover have "attempts i n args False [(i + 1, p, rc)]"
          using True False ok1 sup "1.prems"(1)
          by (auto simp: attempts_def) (metis nat_eq_iff2 not_less order.order_iff_strict zle_add1_eq_le)
        ultimately show ?thesis
          using c db by (auto intro!: exI [of _ "[(i + 1, p, rc)]"])
      next
        case ok: True
        with True b "1.prems" have rest: "bind_args_from H E s n args (i + 1) st1 = (ok, st')"
          by (simp add: bind_args_from.simps [of _ _ _ _ _ i])
        from "1.IH" [OF True refl b [symmetric] ok _ _ rest] True "1.prems"(1)
        obtain bs where db': "db_ctx st' = db_ctx st1"
          and c': "calls st' = calls st1 @ map (bind_call s) bs"
          and a: "attempts (i + 1) n args ok bs"
          by auto
        from attempts_Cons [OF a "1.prems"(1) True sup, of p]
        have "attempts i n args ok ((i + 1, p, rc) # bs)"
          using ok ok1 by simp
        then show ?thesis
          using c c' db db' by (auto intro!: exI [of _ "(i + 1, p, rc) # bs"])
      qed
    qed
  qed
qed


lemma prepare_Some:
  assumes "prepare E db sql st = (Some s, st1)"
  shows "db \<noteq> None \<and> db_ctx st1 = db_ctx st"
  using assms
  by (auto simp: prepare_def called_def print_error_def Let_def split: option.splits prod.splits if_splits)

lemma bind_args_failed:
  assumes "bind_args H E s args st1 = (False, st2)"
  shows "db_ctx st2 = db_ctx st1 \<and>
         (\<exists>bs. calls st2 = calls st1 @ Bind_parameter_count s # map (bind_call s) bs \<and>
               length bs \<le> length args \<and>
               (\<forall>j<length bs. fst (bs ! j) = int j + 1) \<and>
               (\<forall>j. Suc j < length bs \<longrightarrow> snd (snd (bs ! j)) = SQLITE_OK) \<and>
               (\<forall>k<length args. unsupported (args ! k) \<longrightarrow> length bs \<le> k) \<and>
               (sqlite3_bind_parameter_count E s (eng st1) \<noteq> int (length args) \<and> bs = [] \<or>
                bs \<noteq> [] \<and> snd (snd (last bs)) \<noteq> SQLITE_OK \<or>
                length bs < length args \<and> unsupported (args ! length bs)))"
proof (cases "sqlite3_bind_parameter_count E s (eng st1) = int (length args)")
  case False
  with assms have "st2 = print_error (Wrong_count (sqlite3_bind_parameter_count E s (eng st1))
      (int (length args))) (called (Bind_parameter_count s) st1)"
    by (simp add: bind_args_def Let_def)
  then have "db_ctx st2 = db_ctx st1" "calls st2 = calls st1 @ Bind_parameter_count s # map (bind_call s) []"
    by (simp_all add: print_error_def called_def)
  with False show ?thesis
    by (intro conjI exI [of _ "[]"]) simp_all
next
  case True
  let ?st = "called (Bind_parameter_count s) st1"
  from True assms have loop: "bind_args_from H E s (int (length args)) args 0 ?st = (False, st2)"
    by (simp add: bind_args_def Let_def)
  from bind_args_from_calls [OF _ _ loop]
  obtain bs where db: "db_ctx st2 = db_ctx ?st"
    and c: "calls st2 = calls ?st @ map (bind_call s) bs"
    and a: "attempts 0 (int (length args)) args False bs"
    by auto
  from a have len: "length bs \<le> length args"
    and pos: "\<forall>j<length bs. fst (bs ! j) = int j + 1"
    and oks: "\<forall>j. Suc j < length bs \<longrightarrow> snd (snd (bs ! j)) = SQLITE_OK"
    and uns: "\<forall>k. 0 \<le> k \<and> k < int (length args) \<and> unsupported (args ! nat k) \<longrightarrow> int (length bs) \<le> k"
    and why: "bs \<noteq> [] \<and> snd (snd (last bs)) \<noteq> SQLITE_OK \<or>
                length bs < length args \<and> unsupported (args ! length bs)"
    by (simp_all add: attempts_def)
  have uns': "\<forall>k<length args. unsupported (args ! k) \<longrightarrow> length bs \<le> k"
  proof (intro allI impI)
    fix k assume "k < length args" "unsupported (args ! k)"
    with uns [rule_format, of "int k"] show "length bs \<le> k" by simp
  qed
  from db c have "db_ctx st2 = db_ctx st1"
    "calls st2 = calls st1 @ Bind_parameter_count s # map (bind_call s) bs"
    by (simp_all add: called_def)
  with len pos oks uns' why show ?thesis
    by blast
qed

lemma bind_failure_consequences:
  assumes "prepare E (db_ctx st) (utf8 H q) st = (Some s, st1)"
    and "bind_args H E s args st1 = (False, st2)"
  shows "query_with_args H E q args st = (False, finalize E s st2) \<and>
         query_fetch_rows_with_args H E q args st = Some ([], finalize E s st2) \<and>
         db_ctx st \<noteq> None \<and> db_ctx (finalize E s st2) = db_ctx st \<and>
         (\<exists>bs. calls (finalize E s st2)
                 = calls st1 @ Bind_parameter_count s # map (bind_call s) bs @ [Finalize s] \<and>
               length bs \<le> length args \<and>
               (\<forall>j<length bs. fst (bs ! j) = int j + 1) \<and>
               (\<forall>j. Suc j < length bs \<longrightarrow> snd (snd (bs ! j)) = SQLITE_OK) \<and>
               (\<forall>k<length args. unsupported (args ! k) \<longrightarrow> length bs \<le> k) \<and>
               (sqlite3_bind_parameter_count E s (eng st1) \<noteq> int (length args) \<and> bs = [] \<or>
                bs \<noteq> [] \<and> snd (snd (last bs)) \<noteq> SQLITE_OK \<or>
                length bs < length args \<and> unsupported (args ! length bs)))"
proof -
  have q: "query_with_args H E q args st = (False, finalize E s st2)"
    and f: "query_fetch_rows_with_args H E q args st = Some ([], finalize E s st2)"
    using assms by (simp_all add: query_with_args_def query_fetch_rows_with_args_def)
  from prepare_Some [OF assms(1)] have db: "db_ctx st \<noteq> None" "db_ctx st1 = db_ctx st"
    by simp_all
  from bind_args_failed [OF assms(2)] obtain bs
    where db2: "db_ctx st2 = db_ctx st1"
      and c: "calls st2 = calls st1 @ Bind_parameter_count s # map (bind_call s) bs"
      and rest: "length bs \<le> length args"
        "\<forall>j<length bs. fst (bs ! j) = int j + 1"
        "\<forall>j. Suc j < length bs \<longrightarrow> snd (snd (bs ! j)) = SQLITE_OK"
        "\<forall>k<length args. unsupported (args ! k) \<longrightarrow> length bs \<le> k"
        "sqlite3_bind_parameter_count E s (eng st1) \<noteq> int (length args) \<and> bs = [] \<or>
                bs \<noteq> [] \<and> snd (snd (last bs)) \<noteq> SQLITE_OK \<or>
                length bs < length args \<and> unsupported (args ! length bs)"
    by blast
  have "db_ctx (finalize E s st2) = db_ctx st"
    "calls (finalize E s st2)
       = calls st1 @ Bind_parameter_count s # map (bind_call s) bs @ [Finalize s]"
    using db db2 c by (simp_all add: finalize_def called_def)
  with q f db(1) rest show ?thesis
    by blast
qed


lemma bind_arg_supported:
  "parameter_of H arg = Some p \<Longrightarrow> bind_arg H E s i arg st = bind_at E s i p st"
  by (cases arg) (auto simp: bind_arg_def)

lemma bind_arg_other:
  "bind_arg H E s i (OTHER t) st = (False, print_error (Unsupported_type t) st)"
  by (simp add: bind_arg_def)

lemma bind_at_accepted:
  "sqlite3_bind E s (i + 1) p (eng st) = (SQLITE_OK, e') \<Longrightarrow>
   bind_at E s i p st = (True, called (Bind s (i + 1) p SQLITE_OK) (st\<lparr>eng := e'\<rparr>))"
  by (simp add: bind_at_def)

lemma bind_at_rejected:
  "sqlite3_bind E s (i + 1) p (eng st) = (rc, e') \<Longrightarrow> rc \<noteq> SQLITE_OK \<Longrightarrow>
   bind_at E s i p st
     = (False, print_error (Failed_to_bind (i + 1) rc) (called (Bind s (i + 1) p rc) (st\<lparr>eng := e'\<rparr>)))"
  by (simp add: bind_at_def)

lemma bound_first_Suc:
  assumes "bound_first H E s args (Suc k) st = Some st''"
  obtains st' p e' where "bound_first H E s args k st = Some st'"
    and "parameter_of H (args ! k) = Some p"
    and "sqlite3_bind E s (int k + 1) p (eng st') = (SQLITE_OK, e')"
    and "st'' = called (Bind s (int k + 1) p SQLITE_OK) (st'\<lparr>eng := e'\<rparr>)"
  using assms by (auto split: option.splits prod.splits if_splits)

lemma bound_first_loop:
  assumes "bound_first H E s args k st0 = Some stk" and "k \<le> m"
  shows "bind_args_from H E s (int m) args 0 st0 = bind_args_from H E s (int m) args (int k) stk"
  using assms
proof (induction k arbitrary: stk)
  case 0
  then show ?case by simp
next
  case (Suc k)
  from Suc.prems(1) obtain st' p e' where b: "bound_first H E s args k st0 = Some st'"
    and p: "parameter_of H (args ! k) = Some p"
    and ok: "sqlite3_bind E s (int k + 1) p (eng st') = (SQLITE_OK, e')"
    and st: "stk = called (Bind s (int k + 1) p SQLITE_OK) (st'\<lparr>eng := e'\<rparr>)"
    by (rule bound_first_Suc)
  from Suc.prems(2) have lt: "int k < int m" and le: "k \<le> m"
    by simp_all
  have "bind_arg H E s (int k) (args ! k) st' = (True, stk)"
    using p ok st by (simp add: bind_arg_supported bind_at_accepted)
  then have "bind_args_from H E s (int m) args (int k) st'
      = bind_args_from H E s (int m) args (int k + 1) stk"
    using lt by (subst bind_args_from.simps) simp
  with Suc.IH [OF b le] show ?case
    by (simp add: add.commute)
qed

lemma bound_first_calls:
  assumes "bound_first H E s args k st0 = Some stk"
  shows "db_ctx stk = db_ctx st0 \<and> printed stk = printed st0 \<and>
         calls stk = calls st0 @ binds_of H s args k"
  using assms
proof (induction k arbitrary: stk)
  case 0
  then show ?case by simp
next
  case (Suc k)
  from Suc.prems obtain st' p e' where b: "bound_first H E s args k st0 = Some st'"
    and p: "parameter_of H (args ! k) = Some p"
    and st: "stk = called (Bind s (int k + 1) p SQLITE_OK) (st'\<lparr>eng := e'\<rparr>)"
    by (rule bound_first_Suc)
  from Suc.IH [OF b] p st show ?case
    by (simp add: called_def)
qed

lemma bind_args_wrong_count:
  assumes "sqlite3_bind_parameter_count E s (eng st1) \<noteq> int (length args)"
  shows "bind_args H E s args st1
     = (False, print_error (Wrong_count (sqlite3_bind_parameter_count E s (eng st1))
                 (int (length args))) (called (Bind_parameter_count s) st1))"
  using assms by (simp add: bind_args_def Let_def)

lemma bind_args_unsupported:
  assumes "sqlite3_bind_parameter_count E s (eng st1) = int (length args)"
    and "k < length args"
    and "bound_first H E s args k (called (Bind_parameter_count s) st1) = Some stk"
    and "args ! k = OTHER t"
  shows "bind_args H E s args st1 = (False, print_error (Unsupported_type t) stk)"
proof -
  have "bind_args H E s args st1
      = bind_args_from H E s (int (length args)) args 0 (called (Bind_parameter_count s) st1)"
    using assms(1) by (simp add: bind_args_def Let_def called_def)
  also have "\<dots> = bind_args_from H E s (int (length args)) args (int k) stk"
    using assms(2,3) by (intro bound_first_loop) simp_all
  also have "\<dots> = (False, print_error (Unsupported_type t) stk)"
    using assms(2,4) by (subst bind_args_from.simps) (simp add: bind_arg_other)
  finally show ?thesis .
qed

lemma bind_args_rejected:
  assumes "sqlite3_bind_parameter_count E s (eng st1) = int (length args)"
    and "k < length args"
    and "bound_first H E s args k (called (Bind_parameter_count s) st1) = Some stk"
    and "parameter_of H (args ! k) = Some p"
    and "sqlite3_bind E s (int k + 1) p (eng stk) = (rc, e')"
    and "rc \<noteq> SQLITE_OK"
  shows "bind_args H E s args st1
     = (False, print_error (Failed_to_bind (int k + 1) rc)
                 (called (Bind s (int k + 1) p rc) (stk\<lparr>eng := e'\<rparr>)))"
proof -
  have "bind_args H E s args st1
      = bind_args_from H E s (int (length args)) args 0 (called (Bind_parameter_count s) st1)"
    using assms(1) by (simp add: bind_args_def Let_def called_def)
  also have "\<dots> = bind_args_from H E s (int (length args)) args (int k) stk"
    using assms(2,3) by (intro bound_first_loop) simp_all
  also have "\<dots> = (False, print_error (Failed_to_bind (int k + 1) rc)
                 (called (Bind s (int k + 1) p rc) (stk\<lparr>eng := e'\<rparr>)))"
    using assms(2,4,5,6)
    by (subst bind_args_from.simps) (simp add: bind_arg_supported bind_at_rejected)
  finally show ?thesis .
qed

lemma bind_args_accepted:
  assumes "sqlite3_bind_parameter_count E s (eng st1) = int (length args)"
    and "bound_first H E s args (length args) (called (Bind_parameter_count s) st1) = Some st2"
  shows "bind_args H E s args st1 = (True, st2)"
proof -
  have "bind_args H E s args st1
      = bind_args_from H E s (int (length args)) args 0 (called (Bind_parameter_count s) st1)"
    using assms(1) by (simp add: bind_args_def Let_def called_def)
  also have "\<dots> = bind_args_from H E s (int (length args)) args (int (length args)) st2"
    using assms(2) by (intro bound_first_loop) simp_all
  also have "\<dots> = (True, st2)"
    by (subst bind_args_from.simps) simp
  finally show ?thesis .
qed


lemma fails_withI:
  assumes "prepare E (db_ctx st) (utf8 H q) st = (Some s, st1)"
    and "bind_args H E s args st1 = (False, F)"
    and "calls F = calls st1 @ Bind_parameter_count s # new"
  shows "fails_with H E q args st s st1 F new"
proof -
  from bind_failure_consequences [OF assms(1,2)]
  have "query_with_args H E q args st = (False, finalize E s F)"
    "query_fetch_rows_with_args H E q args st = Some ([], finalize E s F)"
    "db_ctx st \<noteq> None" "db_ctx (finalize E s F) = db_ctx st"
    by blast+
  moreover have "calls (finalize E s F) = calls st1 @ Bind_parameter_count s # new @ [Finalize s]"
    using assms(3) by (simp add: finalize_def called_def)
  ultimately show ?thesis
    using assms(2) by (simp add: fails_with_def)
qed

text \<open>
  C6: when the statement was prepared, each of the three causes makes the bind and
  both operations fail. A placeholder count that differs from the number of arguments:
  nothing is bound. An argument \<open>k\<close> of a type outside the five, after \<open>k\<close> arguments
  bound and accepted: the binds made are those \<open>k\<close>, and neither argument \<open>k\<close> nor any
  later one is bound. An argument \<open>k\<close> whose bind the engine rejects, after \<open>k\<close>
  arguments bound and accepted: the binds made are those \<open>k\<close> and the rejected one, and
  no later argument is bound. In each case \<open>query_with_args\<close> returns \<open>false\<close> and
  \<open>query_fetch_rows_with_args\<close> the empty array, the statement is finalized once,
  after the binds, and \<open>db_ctx\<close> is the handle it was, so the connection stays open.
  And whenever \<open>bind_args\<close> fails, the same holds with binds \<open>bs\<close> at the positions
  1, 2, ... of which every one but the last was accepted, none at or after an
  unsupported argument, and the failure is one of the three causes.
\<close>

theorem failed_bind_is_finalized:
  assumes "prepare E (db_ctx st) (utf8 H q) st = (Some s, st1)"
  shows "(sqlite3_bind_parameter_count E s (eng st1) \<noteq> int (length args) \<longrightarrow>
            fails_with H E q args st s st1
              (print_error (Wrong_count (sqlite3_bind_parameter_count E s (eng st1))
                 (int (length args))) (called (Bind_parameter_count s) st1))
              []) \<and>
         (sqlite3_bind_parameter_count E s (eng st1) = int (length args) \<and> k < length args \<and>
          bound_first H E s args k (called (Bind_parameter_count s) st1) = Some stk \<and>
          args ! k = OTHER t \<longrightarrow>
            fails_with H E q args st s st1 (print_error (Unsupported_type t) stk)
              (binds_of H s args k)) \<and>
         (sqlite3_bind_parameter_count E s (eng st1) = int (length args) \<and> k < length args \<and>
          bound_first H E s args k (called (Bind_parameter_count s) st1) = Some stk \<and>
          parameter_of H (args ! k) = Some p \<and>
          sqlite3_bind E s (int k + 1) p (eng stk) = (rc, e') \<and> rc \<noteq> SQLITE_OK \<longrightarrow>
            fails_with H E q args st s st1
              (print_error (Failed_to_bind (int k + 1) rc)
                 (called (Bind s (int k + 1) p rc) (stk\<lparr>eng := e'\<rparr>)))
              (binds_of H s args k @ [Bind s (int k + 1) p rc])) \<and>
         (bind_args H E s args st1 = (False, st2) \<longrightarrow>
            query_with_args H E q args st = (False, finalize E s st2) \<and>
            query_fetch_rows_with_args H E q args st = Some ([], finalize E s st2) \<and>
            db_ctx st \<noteq> None \<and> db_ctx (finalize E s st2) = db_ctx st \<and>
            (\<exists>bs. calls (finalize E s st2)
                    = calls st1 @ Bind_parameter_count s # map (bind_call s) bs @ [Finalize s] \<and>
                  length bs \<le> length args \<and>
                  (\<forall>j<length bs. fst (bs ! j) = int j + 1) \<and>
                  (\<forall>j. Suc j < length bs \<longrightarrow> snd (snd (bs ! j)) = SQLITE_OK) \<and>
                  (\<forall>k<length args. unsupported (args ! k) \<longrightarrow> length bs \<le> k) \<and>
                  (sqlite3_bind_parameter_count E s (eng st1) \<noteq> int (length args) \<and> bs = [] \<or>
                   bs \<noteq> [] \<and> snd (snd (last bs)) \<noteq> SQLITE_OK \<or>
                   length bs < length args \<and> unsupported (args ! length bs))))"
proof (intro conjI)
  show "sqlite3_bind_parameter_count E s (eng st1) \<noteq> int (length args) \<longrightarrow>
          fails_with H E q args st s st1
          (print_error (Wrong_count (sqlite3_bind_parameter_count E s (eng st1))
             (int (length args))) (called (Bind_parameter_count s) st1)) []"
  proof
    assume c: "sqlite3_bind_parameter_count E s (eng st1) \<noteq> int (length args)"
    show "fails_with H E q args st s st1
          (print_error (Wrong_count (sqlite3_bind_parameter_count E s (eng st1))
             (int (length args))) (called (Bind_parameter_count s) st1)) []"
      using assms bind_args_wrong_count [OF c]
      by (rule fails_withI) (simp add: print_error_def called_def)
  qed
  show "sqlite3_bind_parameter_count E s (eng st1) = int (length args) \<and> k < length args \<and>
          bound_first H E s args k (called (Bind_parameter_count s) st1) = Some stk \<and>
          args ! k = OTHER t \<longrightarrow>
            fails_with H E q args st s st1 (print_error (Unsupported_type t) stk)
              (binds_of H s args k)"
  proof
    assume c: "sqlite3_bind_parameter_count E s (eng st1) = int (length args) \<and> k < length args \<and>
          bound_first H E s args k (called (Bind_parameter_count s) st1) = Some stk \<and>
          args ! k = OTHER t"
    then have b: "bound_first H E s args k (called (Bind_parameter_count s) st1) = Some stk"
      by simp
    from c have f: "bind_args H E s args st1 = (False, print_error (Unsupported_type t) stk)"
      by (intro bind_args_unsupported [where k = k]) simp_all
    show "fails_with H E q args st s st1 (print_error (Unsupported_type t) stk) (binds_of H s args k)"
      using assms f
      by (rule fails_withI) (use bound_first_calls [OF b] in \<open>simp add: print_error_def called_def\<close>)
  qed
  show "sqlite3_bind_parameter_count E s (eng st1) = int (length args) \<and> k < length args \<and>
          bound_first H E s args k (called (Bind_parameter_count s) st1) = Some stk \<and>
          parameter_of H (args ! k) = Some p \<and>
          sqlite3_bind E s (int k + 1) p (eng stk) = (rc, e') \<and> rc \<noteq> SQLITE_OK \<longrightarrow>
            fails_with H E q args st s st1
              (print_error (Failed_to_bind (int k + 1) rc)
                 (called (Bind s (int k + 1) p rc) (stk\<lparr>eng := e'\<rparr>)))
              (binds_of H s args k @ [Bind s (int k + 1) p rc])"
  proof
    assume c: "sqlite3_bind_parameter_count E s (eng st1) = int (length args) \<and> k < length args \<and>
          bound_first H E s args k (called (Bind_parameter_count s) st1) = Some stk \<and>
          parameter_of H (args ! k) = Some p \<and>
          sqlite3_bind E s (int k + 1) p (eng stk) = (rc, e') \<and> rc \<noteq> SQLITE_OK"
    then have b: "bound_first H E s args k (called (Bind_parameter_count s) st1) = Some stk"
      by simp
    from c have f: "bind_args H E s args st1
       = (False, print_error (Failed_to_bind (int k + 1) rc)
                   (called (Bind s (int k + 1) p rc) (stk\<lparr>eng := e'\<rparr>)))"
      by (intro bind_args_rejected [where k = k]) simp_all
    show "fails_with H E q args st s st1
              (print_error (Failed_to_bind (int k + 1) rc)
                 (called (Bind s (int k + 1) p rc) (stk\<lparr>eng := e'\<rparr>)))
              (binds_of H s args k @ [Bind s (int k + 1) p rc])"
      using assms f
      by (rule fails_withI) (use bound_first_calls [OF b] in \<open>simp add: print_error_def called_def\<close>)
  qed
  show "bind_args H E s args st1 = (False, st2) \<longrightarrow>
            query_with_args H E q args st = (False, finalize E s st2) \<and>
            query_fetch_rows_with_args H E q args st = Some ([], finalize E s st2) \<and>
            db_ctx st \<noteq> None \<and> db_ctx (finalize E s st2) = db_ctx st \<and>
            (\<exists>bs. calls (finalize E s st2)
                    = calls st1 @ Bind_parameter_count s # map (bind_call s) bs @ [Finalize s] \<and>
                  length bs \<le> length args \<and>
                  (\<forall>j<length bs. fst (bs ! j) = int j + 1) \<and>
                  (\<forall>j. Suc j < length bs \<longrightarrow> snd (snd (bs ! j)) = SQLITE_OK) \<and>
                  (\<forall>k<length args. unsupported (args ! k) \<longrightarrow> length bs \<le> k) \<and>
                  (sqlite3_bind_parameter_count E s (eng st1) \<noteq> int (length args) \<and> bs = [] \<or>
                   bs \<noteq> [] \<and> snd (snd (last bs)) \<noteq> SQLITE_OK \<or>
                   length bs < length args \<and> unsupported (args ! length bs)))"
    using bind_failure_consequences [OF assms] by (rule impI)
qed


theorem failed_bind_is_finalized_witness:
  "prepare (sim (statement 2 [SQLITE_DONE] (\<lambda>b k. []))) (db_ctx (logged [] 0))
     (utf8 plain_host ''INSERT INTO fruits VALUES (?, ?)'') (logged [] 0)
     = (Some 1, logged [Prepare_v2 1 ''INSERT INTO fruits VALUES (?, ?)'' 0] 0) \<and>
   sqlite3_bind_parameter_count (sim (statement 2 [SQLITE_DONE] (\<lambda>b k. []))) 1
     (eng (logged [Prepare_v2 1 ''INSERT INTO fruits VALUES (?, ?)'' 0] 0))
     \<noteq> int (length [STRING ''apple'']) \<and>
   fails_with plain_host (sim (statement 2 [SQLITE_DONE] (\<lambda>b k. [])))
     ''INSERT INTO fruits VALUES (?, ?)'' [STRING ''apple''] (logged [] 0) 1
     (logged [Prepare_v2 1 ''INSERT INTO fruits VALUES (?, ?)'' 0] 0)
     (print_error (Wrong_count 2 1)
        (called (Bind_parameter_count 1) (logged [Prepare_v2 1 ''INSERT INTO fruits VALUES (?, ?)'' 0] 0)))
     [] \<and>
   prepare (sim (statement 3 [SQLITE_DONE] (\<lambda>b k. []))) (db_ctx (logged [] 0))
     (utf8 plain_host ''INSERT INTO fruits VALUES (?, ?, ?)'') (logged [] 0)
     = (Some 1, logged [Prepare_v2 1 ''INSERT INTO fruits VALUES (?, ?, ?)'' 0] 0) \<and>
   sqlite3_bind_parameter_count (sim (statement 3 [SQLITE_DONE] (\<lambda>b k. []))) 1
     (eng (logged [Prepare_v2 1 ''INSERT INTO fruits VALUES (?, ?, ?)'' 0] 0))
     = int (length [INT' 14, OTHER 1, STRING ''apple'']) \<and>
   1 < length [INT' 14, OTHER 1, STRING ''apple''] \<and>
   bound_first plain_host (sim (statement 3 [SQLITE_DONE] (\<lambda>b k. []))) 1
     [INT' 14, OTHER 1, STRING ''apple''] 1
     (called (Bind_parameter_count 1) (logged [Prepare_v2 1 ''INSERT INTO fruits VALUES (?, ?, ?)'' 0] 0))
     = Some \<lparr>db_ctx = Some 1, eng = \<lparr>bound = (\<lambda>i. C_null)(1 := C_integer 14), steps = 0\<rparr>,
         calls = [Prepare_v2 1 ''INSERT INTO fruits VALUES (?, ?, ?)'' 0, Bind_parameter_count 1,
                  Bind 1 1 (bind_int 14) 0],
         printed = []\<rparr> \<and>
   [INT' 14, OTHER 1, STRING ''apple''] ! 1 = OTHER 1 \<and>
   binds_of plain_host 1 [INT' 14, OTHER 1, STRING ''apple''] 1 = [Bind 1 1 (bind_int 14) 0] \<and>
   fails_with plain_host (sim (statement 3 [SQLITE_DONE] (\<lambda>b k. [])))
     ''INSERT INTO fruits VALUES (?, ?, ?)'' [INT' 14, OTHER 1, STRING ''apple''] (logged [] 0) 1
     (logged [Prepare_v2 1 ''INSERT INTO fruits VALUES (?, ?, ?)'' 0] 0)
     (print_error (Unsupported_type 1)
        \<lparr>db_ctx = Some 1, eng = \<lparr>bound = (\<lambda>i. C_null)(1 := C_integer 14), steps = 0\<rparr>,
         calls = [Prepare_v2 1 ''INSERT INTO fruits VALUES (?, ?, ?)'' 0, Bind_parameter_count 1,
                  Bind 1 1 (bind_int 14) 0],
         printed = []\<rparr>)
     (binds_of plain_host 1 [INT' 14, OTHER 1, STRING ''apple''] 1) \<and>
   query_with_args plain_host (sim (statement 3 [SQLITE_DONE] (\<lambda>b k. [])))
     ''INSERT INTO fruits VALUES (?, ?, ?)'' [INT' 14, OTHER 1, STRING ''apple''] (logged [] 0)
     = (False, finalize (sim (statement 3 [SQLITE_DONE] (\<lambda>b k. []))) 1
        (print_error (Unsupported_type 1)
          \<lparr>db_ctx = Some 1, eng = \<lparr>bound = (\<lambda>i. C_null)(1 := C_integer 14), steps = 0\<rparr>,
           calls = [Prepare_v2 1 ''INSERT INTO fruits VALUES (?, ?, ?)'' 0, Bind_parameter_count 1,
                    Bind 1 1 (bind_int 14) 0],
           printed = []\<rparr>)) \<and>
   prepare (sim ((statement 2 [SQLITE_DONE] (\<lambda>b k. []))\<lparr>bind_result := (\<lambda>i. if i = 2 then 25 else SQLITE_OK)\<rparr>)) (db_ctx (logged [] 0))
     (utf8 plain_host ''INSERT INTO fruits VALUES (?, ?)'') (logged [] 0)
     = (Some 1, (logged [Prepare_v2 1 ''INSERT INTO fruits VALUES (?, ?)'' 0] 0)) \<and>
   sqlite3_bind_parameter_count (sim ((statement 2 [SQLITE_DONE] (\<lambda>b k. []))\<lparr>bind_result := (\<lambda>i. if i = 2 then 25 else SQLITE_OK)\<rparr>)) 1 (eng (logged [Prepare_v2 1 ''INSERT INTO fruits VALUES (?, ?)'' 0] 0)) = int (length [STRING ''apple'', INT' 14]) \<and>
   1 < length [STRING ''apple'', INT' 14] \<and>
   bound_first plain_host (sim ((statement 2 [SQLITE_DONE] (\<lambda>b k. []))\<lparr>bind_result := (\<lambda>i. if i = 2 then 25 else SQLITE_OK)\<rparr>)) 1 [STRING ''apple'', INT' 14] 1 (called (Bind_parameter_count 1) (logged [Prepare_v2 1 ''INSERT INTO fruits VALUES (?, ?)'' 0] 0))
     = Some \<lparr>db_ctx = Some 1, eng = \<lparr>bound = (\<lambda>i. C_null)(1 := C_text ''apple''), steps = 0\<rparr>,
         calls = [Prepare_v2 1 ''INSERT INTO fruits VALUES (?, ?)'' 0, Bind_parameter_count 1,
                  Bind 1 1 (bind_text ''apple'') 0],
         printed = []\<rparr> \<and>
   parameter_of plain_host ([STRING ''apple'', INT' 14] ! 1) = Some (bind_int 14) \<and>
   sqlite3_bind (sim ((statement 2 [SQLITE_DONE] (\<lambda>b k. []))\<lparr>bind_result := (\<lambda>i. if i = 2 then 25 else SQLITE_OK)\<rparr>)) 1 (int 1 + 1) (bind_int 14)
     (eng \<lparr>db_ctx = Some 1, eng = \<lparr>bound = (\<lambda>i. C_null)(1 := C_text ''apple''), steps = 0\<rparr>,
         calls = [Prepare_v2 1 ''INSERT INTO fruits VALUES (?, ?)'' 0, Bind_parameter_count 1,
                  Bind 1 1 (bind_text ''apple'') 0],
         printed = []\<rparr>)
     = (25, \<lparr>bound = (\<lambda>i. C_null)(1 := C_text ''apple''), steps = 0\<rparr>) \<and>
   25 \<noteq> SQLITE_OK \<and>
   fails_with plain_host (sim ((statement 2 [SQLITE_DONE] (\<lambda>b k. []))\<lparr>bind_result := (\<lambda>i. if i = 2 then 25 else SQLITE_OK)\<rparr>)) ''INSERT INTO fruits VALUES (?, ?)'' [STRING ''apple'', INT' 14] (logged [] 0) 1 (logged [Prepare_v2 1 ''INSERT INTO fruits VALUES (?, ?)'' 0] 0)
     (print_error (Failed_to_bind (int 1 + 1) 25)
        (called (Bind 1 (int 1 + 1) (bind_int 14) 25)
           (\<lparr>db_ctx = Some 1, eng = \<lparr>bound = (\<lambda>i. C_null)(1 := C_text ''apple''), steps = 0\<rparr>,
         calls = [Prepare_v2 1 ''INSERT INTO fruits VALUES (?, ?)'' 0, Bind_parameter_count 1,
                  Bind 1 1 (bind_text ''apple'') 0],
         printed = []\<rparr>\<lparr>eng := \<lparr>bound = (\<lambda>i. C_null)(1 := C_text ''apple''), steps = 0\<rparr>\<rparr>)))
     (binds_of plain_host 1 [STRING ''apple'', INT' 14] 1 @ [Bind 1 (int 1 + 1) (bind_int 14) 25])"
  (is "?p1 \<and> ?n1 \<and> ?f1 \<and> ?p2 \<and> ?n2 \<and> ?k2 \<and> ?b2 \<and> ?a2 \<and> ?c2 \<and> ?f2 \<and> ?q2 \<and>
       ?p3 \<and> ?n3 \<and> ?k3 \<and> ?b3 \<and> ?a3 \<and> ?r3 \<and> ?e3 \<and> ?f3")
proof -
  have p1: ?p1 and p2: ?p2
    by (simp_all add: binding_defs sim_defs codes)
  have n1: ?n1 and n2: ?n2
    by (simp_all add: sim_defs)
  have v1: "sqlite3_bind_parameter_count (sim (statement 2 [SQLITE_DONE] (\<lambda>b k. []))) 1
     (eng (logged [Prepare_v2 1 ''INSERT INTO fruits VALUES (?, ?)'' 0] 0)) = 2"
    "int (length [STRING ''apple'']) = 1"
    by (simp_all add: sim_defs)
  have k2: ?k2 and a2: ?a2
    by simp_all
  have b2: ?b2
    using bound_first.simps(2) [of plain_host "sim (statement 3 [SQLITE_DONE] (\<lambda>b k. []))" 1
        "[INT' 14, OTHER 1, STRING ''apple'']" 0]
    by (simp add: called_def sim_defs codes)
  have c2: ?c2
    using binds_of.simps(2) [of plain_host 1 "[INT' 14, OTHER 1, STRING ''apple'']" 0]
    by (simp add: codes)
  from failed_bind_is_finalized [OF p1, where args = "[STRING ''apple'']"] n1
  have f1: ?f1
    unfolding v1 by blast
  from failed_bind_is_finalized [OF p2, where args = "[INT' 14, OTHER 1, STRING ''apple'']" and k = 1
      and t = 1] n2 k2 b2 a2
  have f2: ?f2
    by blast
  then have "bind_args plain_host (sim (statement 3 [SQLITE_DONE] (\<lambda>b k. []))) 1
       [INT' 14, OTHER 1, STRING ''apple'']
       (logged [Prepare_v2 1 ''INSERT INTO fruits VALUES (?, ?, ?)'' 0] 0)
     = (False, print_error (Unsupported_type 1)
          \<lparr>db_ctx = Some 1, eng = \<lparr>bound = (\<lambda>i. C_null)(1 := C_integer 14), steps = 0\<rparr>,
           calls = [Prepare_v2 1 ''INSERT INTO fruits VALUES (?, ?, ?)'' 0, Bind_parameter_count 1,
                    Bind 1 1 (bind_int 14) 0],
           printed = []\<rparr>)"
    by (simp add: fails_with_def)
  with failed_bind_is_finalized [OF p2, where args = "[INT' 14, OTHER 1, STRING ''apple'']"]
  have q2: ?q2
    by blast
  have p3: ?p3
    by (simp add: binding_defs sim_defs codes)
  have n3: ?n3
    by (simp add: sim_defs)
  have k3: ?k3 and a3: ?a3 and e3: ?e3
    by (simp_all add: plain_host_def codes)
  have b3: ?b3
    using bound_first.simps(2) [of plain_host "sim ((statement 2 [SQLITE_DONE] (\<lambda>b k. []))\<lparr>bind_result := (\<lambda>i. if i = 2 then 25 else SQLITE_OK)\<rparr>)" 1
        "[STRING ''apple'', INT' 14]" 0]
    by (simp add: called_def sim_defs codes)
  have r3: ?r3
    by (simp add: sim_defs codes)
  from failed_bind_is_finalized [OF p3, where args = "[STRING ''apple'', INT' 14]" and k = 1 and p = "bind_int 14"
      and rc = 25] n3 k3 b3 a3 r3 e3
  have f3: ?f3
    by blast
  from p1 n1 f1 p2 n2 k2 b2 a2 c2 f2 q2 p3 n3 k3 b3 a3 r3 e3 f3 show ?thesis
    by blast
qed

subsection \<open>Binding a value and fetching it back\<close>

text \<open>
  Narrowing a 64-bit integer to 32 bits and widening it again keeps its low 32 bits,
  sign-extended: the value is kept exactly when it fits 32 bits. Widening first loses
  nothing.
\<close>

lemma narrow_widen_sint:
  fixes i :: "64 word"
  shows "sint (scast (ucast i :: 32 word) :: 64 word) = signed_take_bit 31 (sint i)"
proof -
  have "sint (scast (ucast i :: 32 word) :: 64 word) = sint (ucast i :: 32 word)"
    by (rule sint_up_scast) (simp add: is_up)
  also have "\<dots> = signed_take_bit 31 (uint i)"
    by (simp add: signed_ucast_eq)
  also have "\<dots> = signed_take_bit 31 (sint i)"
    by (simp add: sint_uint signed_take_bit_signed_take_bit)
  finally show ?thesis .
qed

lemma narrow_widen:
  fixes i :: "64 word"
  shows "(scast (ucast i :: 32 word) :: 64 word) = i \<longleftrightarrow> - (2 ^ 31) \<le> sint i \<and> sint i < 2 ^ 31"
  by (simp add: word_eq_iff_signed [where 'a = int] narrow_widen_sint signed_take_bit_int_eq_self_iff)

lemma widen_narrow:
  fixes w :: "32 word"
  shows "(ucast (scast w :: 64 word) :: 32 word) = w"
proof -
  have "(ucast :: 64 word \<Rightarrow> 32 word) = scast"
    by (rule down_cast_same) (simp add: is_down)
  then have "(ucast (scast w :: 64 word) :: 32 word) = scast (scast w :: 64 word)"
    by simp
  also have "\<dots> = w"
    by (rule scast_up_scast_id) (simp add: is_up)
  finally show ?thesis .
qed

lemmas echo_run = binding_defs bind_args_from.simps fetch_rows_loop.simps fetch_row_from.simps
  sim_defs echo_def codes

lemma echo_int:
  assumes "db_ctx st = Some d" and "steps (eng st) = 0"
  shows "map_option fst (query_fetch_rows_with_args H (sim (echo name)) q [INT' i] st)
     = Some [[(String_of H name, INT' (scast (ucast i :: 32 word)))]]"
  using assms by (simp add: echo_run widen_narrow)

lemma echo_float:
  assumes "db_ctx st = Some d" and "steps (eng st) = 0" and "\<not> is_nan x"
  shows "map_option fst (query_fetch_rows_with_args H (sim (echo name)) q [FLOAT x] st)
     = Some [[(String_of H name, FLOAT x)]]"
  using assms by (simp add: echo_run)

lemma echo_text:
  assumes "db_ctx st = Some d" and "steps (eng st) = 0"
  shows "map_option fst (query_fetch_rows_with_args H (sim (echo name)) q [STRING t] st)
     = Some [[(String_of H name, STRING (String_of H (c_str (utf8 H t))))]]"
  using assms by (simp add: echo_run)

lemma echo_blob:
  assumes "db_ctx st = Some d" and "steps (eng st) = 0" and "b \<noteq> []"
  shows "map_option fst (query_fetch_rows_with_args H (sim (echo name)) q [PACKED_BYTE_ARRAY b] st)
     = Some [[(String_of H name, PACKED_BYTE_ARRAY b)]]"
  using assms by (simp add: echo_run)

text \<open>
  C4, as amended: on an open connection, binding one value to the round-trip query and
  fetching gives one Record with one entry, under the column's name. An Integer comes
  back as its low 32 bits, sign-extended, which is the Integer itself exactly when it
  fits a signed 32-bit \<open>int\<close>; a Float that is not a NaN comes back bit for bit; a
  Text comes back equal when the host's \<open>String(const char*)\<close> rebuilds it from its
  NUL-terminated UTF-8 encoding; a Blob that is not empty comes back byte for byte.
\<close>

theorem round_trip:
  assumes "db_ctx st = Some d" and "steps (eng st) = 0"
  shows "map_option fst (query_fetch_rows_with_args H (sim (echo name)) q [INT' i] st)
           = Some [[(String_of H name, INT' (scast (ucast i :: 32 word)))]] \<and>
         ((scast (ucast i :: 32 word) :: 64 word) = i \<longleftrightarrow> - (2 ^ 31) \<le> sint i \<and> sint i < 2 ^ 31) \<and>
         (\<not> is_nan x \<longrightarrow>
            map_option fst (query_fetch_rows_with_args H (sim (echo name)) q [FLOAT x] st)
              = Some [[(String_of H name, FLOAT x)]]) \<and>
         (String_of H (c_str (utf8 H t)) = t \<longrightarrow>
            map_option fst (query_fetch_rows_with_args H (sim (echo name)) q [STRING t] st)
              = Some [[(String_of H name, STRING t)]]) \<and>
         (b \<noteq> [] \<longrightarrow>
            map_option fst (query_fetch_rows_with_args H (sim (echo name)) q [PACKED_BYTE_ARRAY b] st)
              = Some [[(String_of H name, PACKED_BYTE_ARRAY b)]])"
proof (intro conjI impI)
  show "map_option fst (query_fetch_rows_with_args H (sim (echo name)) q [INT' i] st)
           = Some [[(String_of H name, INT' (scast (ucast i :: 32 word)))]]"
    by (rule echo_int [OF assms])
  show "(scast (ucast i :: 32 word) :: 64 word) = i \<longleftrightarrow> - (2 ^ 31) \<le> sint i \<and> sint i < 2 ^ 31"
    by (rule narrow_widen)
  show "map_option fst (query_fetch_rows_with_args H (sim (echo name)) q [FLOAT x] st)
              = Some [[(String_of H name, FLOAT x)]]" if "\<not> is_nan x"
    using that by (rule echo_float [OF assms])
  show "map_option fst (query_fetch_rows_with_args H (sim (echo name)) q [STRING t] st)
              = Some [[(String_of H name, STRING t)]]" if "String_of H (c_str (utf8 H t)) = t"
    using echo_text [OF assms, of H name q t] that by simp
  show "map_option fst (query_fetch_rows_with_args H (sim (echo name)) q [PACKED_BYTE_ARRAY b] st)
              = Some [[(String_of H name, PACKED_BYTE_ARRAY b)]]" if "b \<noteq> []"
    using that by (rule echo_blob [OF assms])
qed

theorem round_trip_witness:
  "db_ctx opened = Some 1 \<and> steps (eng opened) = 0 \<and>
   map_option fst (query_fetch_rows_with_args plain_host (sim (echo ''v'')) ''SELECT ? AS v''
      [INT' 14] opened) = Some [[(''v'', INT' 14)]] \<and>
   \<not> is_nan 0x3FF8000000000000 \<and>
   map_option fst (query_fetch_rows_with_args plain_host (sim (echo ''v'')) ''SELECT ? AS v''
      [FLOAT 0x3FF8000000000000] opened) = Some [[(''v'', FLOAT 0x3FF8000000000000)]] \<and>
   String_of plain_host (c_str (utf8 plain_host ''apple'')) = ''apple'' \<and>
   map_option fst (query_fetch_rows_with_args plain_host (sim (echo ''v'')) ''SELECT ? AS v''
      [STRING ''apple''] opened) = Some [[(''v'', STRING ''apple'')]] \<and>
   [1, 2, 3] \<noteq> ([] :: PackedByteArray) \<and>
   map_option fst (query_fetch_rows_with_args plain_host (sim (echo ''v'')) ''SELECT ? AS v''
      [PACKED_BYTE_ARRAY [1, 2, 3]] opened) = Some [[(''v'', PACKED_BYTE_ARRAY [1, 2, 3])]]"
  (is "?d \<and> ?s \<and> ?i \<and> ?n \<and> ?f \<and> ?h \<and> ?t \<and> ?e \<and> ?b")
proof -
  have d: ?d and s: ?s
    by (simp_all add: opened_def sim_start_def)
  have n: ?n
    by (simp add: is_nan_def)
  have h: ?h
    by (simp add: plain_host_def c_str_def)
  have e: ?e
    by simp
  have k: "String_of plain_host ''v'' = ''v''" "(scast (ucast (14 :: 64 word) :: 32 word) :: 64 word) = 14"
    by (simp_all add: plain_host_def)
  from round_trip [OF d s, of plain_host "''v''" "''SELECT ? AS v''" 14 "0x3FF8000000000000"
      "''apple''" "[1, 2, 3]"] n h e
  have ?i and ?f and ?t and ?b
    unfolding k by blast+
  with d s n h e show ?thesis
    by blast
qed

text \<open>
  C4 as it is stated fails: the Integer \<open>2147483648\<close> comes back as \<open>-2147483648\<close>.
\<close>

theorem wide_integer_is_truncated:
  "map_option fst (query_fetch_rows_with_args plain_host (sim (echo ''v'')) ''SELECT ? AS v''
      [INT' 2147483648] opened)
   = Some [[(''v'', INT' (- 2147483648))]]"
  using echo_int [of opened 1 plain_host "''v''" "''SELECT ? AS v''" 2147483648]
  by (simp add: opened_def sim_start_def plain_host_def)

subsection \<open>The paths that finalize\<close>

lemma quiet_simps [simp]:
  "quiet []"
  "quiet (cs @ cs') \<longleftrightarrow> quiet cs \<and> quiet cs'"
  "quiet (c # cs) \<longleftrightarrow> finalized c = None \<and> stepped c = None \<and> quiet cs"
  by (auto simp: quiet_def List.map_filter_def split: option.splits)

lemma quiet_binds: "quiet (map (bind_call s) bs)"
  by (induction bs) auto

lemma prepare_calls:
  assumes "prepare E db sql st = (r, st1)"
  shows "db_ctx st1 = db_ctx st \<and> (\<exists>cs. calls st1 = calls st @ cs \<and> quiet cs)"
proof (cases db)
  case None
  with assms show ?thesis
    by (auto simp: prepare_def print_error_def)
next
  case (Some d)
  obtain rc stmt e' where "sqlite3_prepare_v2 E d sql (eng st) = (rc, stmt, e')"
    by (cases "sqlite3_prepare_v2 E d sql (eng st)")
  with Some assms have "db_ctx st1 = db_ctx st" "calls st1 = calls st @ [Prepare_v2 d sql rc]"
    by (auto simp: prepare_def print_error_def called_def Let_def split: if_splits)
  then show ?thesis
    by (auto intro!: exI [of _ "[Prepare_v2 d sql rc]"])
qed

lemma bind_args_calls:
  assumes "bind_args H E s args st1 = (ok, st2)"
  shows "db_ctx st2 = db_ctx st1 \<and> (\<exists>cs. calls st2 = calls st1 @ cs \<and> quiet cs)"
proof (cases "sqlite3_bind_parameter_count E s (eng st1) = int (length args)")
  case False
  with assms have "st2 = print_error (Wrong_count (sqlite3_bind_parameter_count E s (eng st1))
      (int (length args))) (called (Bind_parameter_count s) st1)"
    by (simp add: bind_args_def Let_def)
  then have "db_ctx st2 = db_ctx st1" "calls st2 = calls st1 @ [Bind_parameter_count s]"
    by (simp_all add: print_error_def called_def)
  then show ?thesis
    by (auto intro!: exI [of _ "[Bind_parameter_count s]"])
next
  case True
  let ?st = "called (Bind_parameter_count s) st1"
  from True assms have loop: "bind_args_from H E s (int (length args)) args 0 ?st = (ok, st2)"
    by (simp add: bind_args_def Let_def)
  from bind_args_from_calls [OF _ _ loop]
  obtain bs where "db_ctx st2 = db_ctx ?st" "calls st2 = calls ?st @ map (bind_call s) bs"
    by auto
  then have "db_ctx st2 = db_ctx st1"
    "calls st2 = calls st1 @ Bind_parameter_count s # map (bind_call s) bs"
    by (simp_all add: called_def)
  then show ?thesis
    by (auto simp: quiet_binds intro!: exI [of _ "Bind_parameter_count s # map (bind_call s) bs"])
qed

lemma step_calls:
  assumes "step E s st = (rc, st1)"
  shows "db_ctx st1 = db_ctx st \<and> calls st1 = calls st @ [Step s rc]"
  using assms by (auto simp: step_def called_def split: prod.splits)

lemma finalize_calls:
  "db_ctx (finalize E s st) = db_ctx st \<and> calls (finalize E s st) = calls st @ [Finalize s]"
  by (simp add: finalize_def called_def)

text \<open>
  When the statement was prepared, \<open>query_with_args\<close> returns what \<open>bind_args\<close>
  returned, leaves \<open>db_ctx\<close> as it was, and ends its engine calls with the one
  finalize of the statement; before it the statement is stepped once when the bind
  succeeded, whatever the step answers, and not at all when the bind failed.
\<close>

theorem query_finalizes_once:
  assumes "prepare E (db_ctx st) (utf8 H q) st = (Some s, st1)"
    and "bind_args H E s args st1 = (ok, st2)"
  shows "\<exists>st' cs. query_with_args H E q args st = (ok, st') \<and> db_ctx st' = db_ctx st \<and>
           calls st' = calls st @ cs @ [Finalize s] \<and>
           List.map_filter finalized cs = [] \<and>
           List.map_filter stepped cs = (if ok then [s] else [])"
proof (cases ok)
  case False
  with assms have q: "query_with_args H E q args st = (ok, finalize E s st2)"
    by (simp add: query_with_args_def)
  from prepare_calls [OF assms(1)] bind_args_calls [OF assms(2)]
  obtain cs1 cs2 where "calls st2 = calls st @ cs1 @ cs2" "quiet (cs1 @ cs2)" "db_ctx st2 = db_ctx st"
    by auto
  with q False finalize_calls [of E s st2] show ?thesis
    by (intro exI [of _ "finalize E s st2"] exI [of _ "cs1 @ cs2"]) (simp add: quiet_def)
next
  case True
  obtain rc st3 where s: "step E s st2 = (rc, st3)"
    by (cases "step E s st2")
  with True assms have q: "query_with_args H E q args st = (ok, finalize E s st3)"
    by (simp add: query_with_args_def)
  from prepare_calls [OF assms(1)] bind_args_calls [OF assms(2)] step_calls [OF s]
  obtain cs1 cs2 where "calls st3 = calls st @ (cs1 @ cs2) @ [Step s rc]" "quiet (cs1 @ cs2)"
    "db_ctx st3 = db_ctx st"
    by auto
  with q True finalize_calls [of E s st3] show ?thesis
    by (intro exI [of _ "finalize E s st3"] exI [of _ "(cs1 @ cs2) @ [Step s rc]"])
      (simp add: quiet_def List.map_filter_def)
qed


theorem query_finalizes_once_witness:
  "prepare (sim (statement 0 [SQLITE_DONE] (\<lambda>b k. []))) (db_ctx (logged [] 0))
     (utf8 plain_host ''DROP TABLE IF EXISTS fruits'') (logged [] 0)
     = (Some 1, logged [Prepare_v2 1 ''DROP TABLE IF EXISTS fruits'' 0] 0) \<and>
   bind_args plain_host (sim (statement 0 [SQLITE_DONE] (\<lambda>b k. []))) 1 []
     (logged [Prepare_v2 1 ''DROP TABLE IF EXISTS fruits'' 0] 0)
     = (True, logged [Prepare_v2 1 ''DROP TABLE IF EXISTS fruits'' 0, Bind_parameter_count 1] 0) \<and>
   (\<exists>st' cs. query_with_args plain_host (sim (statement 0 [SQLITE_DONE] (\<lambda>b k. [])))
        ''DROP TABLE IF EXISTS fruits'' [] (logged [] 0) = (True, st') \<and>
      db_ctx st' = db_ctx (logged [] 0) \<and>
      calls st' = calls (logged [] 0) @ cs @ [Finalize 1] \<and>
      List.map_filter finalized cs = [] \<and>
      List.map_filter stepped cs = (if True then [1] else []))"
  (is "?p \<and> ?b \<and> ?q")
proof -
  have p: ?p
    by (simp add: binding_defs sim_defs codes)
  have b: ?b
    by (simp add: binding_defs bind_args_from.simps sim_defs codes)
  from query_finalizes_once [OF p b] have ?q .
  with p b show ?thesis
    by blast
qed

lemma fetch_column_calls:
  assumes "fetch_column H E s i result st = (r, st1)"
  shows "db_ctx st1 = db_ctx st \<and> (\<exists>cs. calls st1 = calls st @ cs \<and> quiet cs)"
proof -
  have "db_ctx st1 = db_ctx st \<and>
        calls st1 = calls st @ drop (length (calls st)) (calls st1) \<and>
        quiet (drop (length (calls st)) (calls st1))"
    using assms
    by (auto simp: fetch_column_def called_def print_error_def Let_def split: if_splits)
  then show ?thesis
    by blast
qed

lemma fetch_row_from_calls:
  assumes "fetch_row_from H E s n i result st = (row, st1)"
  shows "db_ctx st1 = db_ctx st \<and> (\<exists>cs. calls st1 = calls st @ cs \<and> quiet cs)"
  using assms
proof (induction H E s n i result st rule: fetch_row_from.induct)
  case (1 H E s n i result st)
  show ?case
  proof (cases "i < n")
    case False
    have "fetch_row_from H E s n i result st = (result, st)"
      using False by (subst fetch_row_from.simps) simp
    with "1.prems" show ?thesis
      by (auto intro!: exI [of _ "[]"])
  next
    case True
    obtain r st2 where c: "fetch_column H E s i result st = (r, st2)"
      by (cases "fetch_column H E s i result st")
    from fetch_column_calls [OF c] obtain cs where
      st2: "db_ctx st2 = db_ctx st" "calls st2 = calls st @ cs" "quiet cs"
      by blast
    show ?thesis
    proof (cases r)
      case None
      have "fetch_row_from H E s n i result st = ([], st2)"
        using True c None by (subst fetch_row_from.simps) simp
      with "1.prems" st2 show ?thesis
        by auto
    next
      case (Some result')
      have "fetch_row_from H E s n i result st = fetch_row_from H E s n (i + 1) result' st2"
        using True c Some by (subst fetch_row_from.simps) simp
      with "1.prems" have "fetch_row_from H E s n (i + 1) result' st2 = (row, st1)"
        by simp
      from "1.IH" [OF True refl c [symmetric] Some this] obtain cs' where
        "db_ctx st1 = db_ctx st2" "calls st1 = calls st2 @ cs'" "quiet cs'"
        by blast
      with st2 show ?thesis
        by (auto intro!: exI [of _ "cs @ cs'"])
    qed
  qed
qed

lemma fetch_row_calls:
  assumes "fetch_row H E s st = (row, st1)"
  shows "db_ctx st1 = db_ctx st \<and> (\<exists>cs. calls st1 = calls st @ cs \<and> quiet cs)"
proof -
  from assms have "fetch_row_from H E s (sqlite3_column_count E s (eng st)) 0 []
      (called (Column_count s) st) = (row, st1)"
    by (simp add: fetch_row_def Let_def)
  from fetch_row_from_calls [OF this] obtain cs where
    "db_ctx st1 = db_ctx st" "calls st1 = calls st @ Column_count s # cs" "quiet cs"
    by (auto simp: called_def)
  then show ?thesis
    by (auto intro!: exI [of _ "Column_count s # cs"])
qed

lemma rows_fetched_calls:
  assumes "rows_fetched H E s n array st = Some (array', st')"
  shows "db_ctx st' = db_ctx st \<and>
         (\<exists>cs. calls st' = calls st @ cs \<and> List.map_filter finalized cs = [] \<and>
               List.map_filter stepped cs = replicate n s)"
  using assms
proof (induction n arbitrary: array st)
  case 0
  then show ?case
    by (auto intro!: exI [of _ "[]"])
next
  case (Suc n)
  obtain rc st1 where s: "step E s st = (rc, st1)"
    by (cases "step E s st")
  obtain row st2 where r: "fetch_row H E s st1 = (row, st2)"
    by (cases "fetch_row H E s st1")
  from Suc.prems s r have rest: "rows_fetched H E s n (array @ [row]) st2 = Some (array', st')"
    by (simp split: if_splits)
  from step_calls [OF s] fetch_row_calls [OF r] obtain cs where
    st2: "db_ctx st2 = db_ctx st" "calls st2 = calls st @ Step s rc # cs" "quiet cs"
    by auto
  from Suc.IH [OF rest] obtain cs' where
    st': "db_ctx st' = db_ctx st2" "calls st' = calls st2 @ cs'"
      "List.map_filter finalized cs' = []" "List.map_filter stepped cs' = replicate n s"
    by blast
  have "List.map_filter finalized ((Step s rc # cs) @ cs') = []"
    "List.map_filter stepped ((Step s rc # cs) @ cs') = replicate (Suc n) s"
    using st2(3) st'(3,4) by (simp_all add: quiet_def List.map_filter_def)
  with st2 st' show ?case
    by (auto intro!: exI [of _ "(Step s rc # cs) @ cs'"])
qed

text \<open>
  When the statement was prepared and bound, \<open>n\<close> steps each delivered a row and the
  next step answers \<open>SQLITE_DONE\<close>, the fetch returns those \<open>n\<close> Records, in order,
  and ends its engine calls with the one finalize of the statement, after \<open>n + 1\<close>
  steps.
\<close>

theorem fetch_finalizes_once:
  assumes "prepare E (db_ctx st) (utf8 H q) st = (Some s, st1)"
    and "bind_args H E s args st1 = (True, st2)"
    and "rows_fetched H E s n [] st2 = Some (array, st3)"
    and "step E s st3 = (SQLITE_DONE, st4)"
  shows "\<exists>st' cs. query_fetch_rows_with_args H E q args st = Some (array, st') \<and>
           length array = n \<and> db_ctx st' = db_ctx st \<and>
           calls st' = calls st @ cs @ [Finalize s] \<and>
           List.map_filter finalized cs = [] \<and>
           List.map_filter stepped cs = replicate (Suc n) s"
proof -
  have "fetch_rows_loop H E s [] st2 = fetch_rows_loop H E s array st3"
    using assms(3) by (rule rows_fetched_loop)
  also have "\<dots> = Some (Loop_done array, st4)"
    using assms(4) by (subst fetch_rows_loop.simps) (simp add: codes)
  finally have q: "query_fetch_rows_with_args H E q args st = Some (array, finalize E s st4)"
    using assms(1,2) by (simp add: query_fetch_rows_with_args_def)
  from prepare_calls [OF assms(1)] bind_args_calls [OF assms(2)]
  obtain cs1 where 1: "db_ctx st2 = db_ctx st" "calls st2 = calls st @ cs1" "quiet cs1"
    by auto
  from rows_fetched_calls [OF assms(3)] step_calls [OF assms(4)]
  obtain cs2 where 2: "db_ctx st4 = db_ctx st2" "calls st4 = calls st2 @ cs2 @ [Step s SQLITE_DONE]"
    "List.map_filter finalized cs2 = []" "List.map_filter stepped cs2 = replicate n s"
    by auto
  have "List.map_filter finalized (cs1 @ cs2 @ [Step s SQLITE_DONE]) = []"
    "List.map_filter stepped (cs1 @ cs2 @ [Step s SQLITE_DONE]) = replicate (Suc n) s"
    using 1(3) 2(3,4) by (simp_all add: quiet_def List.map_filter_def replicate_append_same)
  with q 1 2 rows_fetched_length [OF assms(3)] finalize_calls [of E s st4] show ?thesis
    by (intro exI [of _ "finalize E s st4"] exI [of _ "cs1 @ cs2 @ [Step s SQLITE_DONE]"]) simp
qed


theorem fetch_finalizes_once_witness:
  "prepare (sim (statement 0 [SQLITE_ROW, SQLITE_DONE] (\<lambda>b k. [(''price'', C_integer 14)])))
     (db_ctx (logged [] 0)) (utf8 plain_host ''SELECT price FROM fruits'') (logged [] 0)
     = (Some 1, logged [Prepare_v2 1 ''SELECT price FROM fruits'' 0] 0) \<and>
   bind_args plain_host
     (sim (statement 0 [SQLITE_ROW, SQLITE_DONE] (\<lambda>b k. [(''price'', C_integer 14)]))) 1 []
     (logged [Prepare_v2 1 ''SELECT price FROM fruits'' 0] 0)
     = (True, logged [Prepare_v2 1 ''SELECT price FROM fruits'' 0, Bind_parameter_count 1] 0) \<and>
   rows_fetched plain_host
     (sim (statement 0 [SQLITE_ROW, SQLITE_DONE] (\<lambda>b k. [(''price'', C_integer 14)])))
     1 1 [] (logged [Prepare_v2 1 ''SELECT price FROM fruits'' 0, Bind_parameter_count 1] 0)
     = Some ([[(''price'', INT' 14)]],
         logged [Prepare_v2 1 ''SELECT price FROM fruits'' 0, Bind_parameter_count 1,
           Step 1 100, Column_count 1, Column_name 1 0, Column_type 1 0, Column_int 1 0] 1) \<and>
   step (sim (statement 0 [SQLITE_ROW, SQLITE_DONE] (\<lambda>b k. [(''price'', C_integer 14)]))) 1
     (logged [Prepare_v2 1 ''SELECT price FROM fruits'' 0, Bind_parameter_count 1,
           Step 1 100, Column_count 1, Column_name 1 0, Column_type 1 0, Column_int 1 0] 1)
     = (SQLITE_DONE, logged [Prepare_v2 1 ''SELECT price FROM fruits'' 0, Bind_parameter_count 1,
           Step 1 100, Column_count 1, Column_name 1 0, Column_type 1 0, Column_int 1 0,
           Step 1 101] 2) \<and>
   (\<exists>st' cs. query_fetch_rows_with_args plain_host
        (sim (statement 0 [SQLITE_ROW, SQLITE_DONE] (\<lambda>b k. [(''price'', C_integer 14)])))
        ''SELECT price FROM fruits'' [] (logged [] 0) = Some ([[(''price'', INT' 14)]], st') \<and>
      length ([[(''price'', INT' 14)]] :: string Dictionary list) = 1 \<and> db_ctx st' = db_ctx (logged [] 0) \<and>
      calls st' = calls (logged [] 0) @ cs @ [Finalize 1] \<and>
      List.map_filter finalized cs = [] \<and>
      List.map_filter stepped cs = replicate (Suc 1) 1)"
  (is "?p \<and> ?b \<and> ?r \<and> ?s \<and> ?q")
proof -
  have p: ?p
    by (simp add: binding_defs sim_defs codes)
  have b: ?b
    by (simp add: binding_defs bind_args_from.simps sim_defs codes)
  have r: ?r
    by (simp add: binding_defs fetch_row_from.simps sim_defs codes)
  have s: ?s
    by (simp add: binding_defs sim_defs codes)
  from fetch_finalizes_once [OF p b r s] have ?q .
  with p b r s show ?thesis
    by blast
qed

subsection \<open>An empty path\<close>

text \<open>
  \<open>open\<close> on a path that is empty once its edges are stripped returns \<open>false\<close> and
  leaves the state as it was: no engine call is made and nothing is printed.
\<close>

theorem open_blank_path:
  "String_length H (strip_edges H path) = 0 \<Longrightarrow> open H E path st = (False, st)"
  by (simp add: open_def)

theorem open_blank_path_witness:
  "String_length plain_host (strip_edges plain_host ''   '') = 0 \<and>
   open plain_host (sim (statement 0 [] (\<lambda>b k. []))) ''   '' closed = (False, closed)"
proof -
  have blank: "String_length plain_host (strip_edges plain_host ''   '') = 0"
    by (simp add: plain_host_def)
  from open_blank_path [OF blank] blank show ?thesis
    by blast
qed

end
